theory Spec2Isabelle
  imports Complex_Main "HOL-Library.Multiset" "HOL-Library.Log_Nat"
begin

section \<open>The leveling subsystem: data model\<close>

text \<open>
  The embedding follows \<^verbatim>\<open>data_manager.py\<close> (class DataManager, section
  "Leveling System"), \<^verbatim>\<open>config.py\<close> (class Config) and
  \<^verbatim>\<open>cogs/leveling.py\<close> (class Leveling).

  Conventions of the embedding:
  \<^item> Python integers are \<open>int\<close>.
  \<^item> A Python float is the rational number it denotes (a binary64 value). The product
    \<open>xp_amount * xp_multiplier\<close> is the binary64 product: the integer is converted to a float
    and the exact product is rounded to the nearest binary64 value, ties to even
    (\<open>round_binary64\<close>). Rounding is modelled without the exponent limits of the format: a
    result of magnitude \<open>2^1024\<close> or more raises OverflowError in Python, which no amount and
    multiplier the commands accept comes near, and results below \<open>2^-1022\<close> truncate to 0
    either way. The threshold arithmetic \<open>base_xp * (current_level * 1.5)\<close> is written with
    exact products: both products are exact in binary64 for levels below \<open>2^45\<close>. The
    clock difference \<open>current_time - last\<close> is the exact difference. Comparisons of an
    integer with a float are exact in Python and are exact here.
  \<^item> Guild and user ids are integers; the source keys its dictionaries by \<open>str(id)\<close> and
    reads them back with \<open>int(key)\<close>, which is a bijection on integers, so the keys are the
    integers themselves. In the same way the cooldown key \<open>f"{guild_id}_{user_id}"\<close> is the pair.
  \<^item> A user's level dictionary \<open>{"level": .., "xp": .., "total_xp": ..}\<close> and the dictionary
    of the users of a guild are insertion-ordered dictionaries, hence association lists
    (read with \<open>.get(key, default)\<close>, written with \<open>d[key] = value\<close>); a dictionary is
    falsy exactly when it is the empty list.
  \<^item> Every guild has one JSON document (\<open>data/<guild_id>.json\<close>). The file system is a total
    function from guild ids to documents: a missing file is the document \<open>DEFAULT_CONFIG\<close>,
    which is what \<open>load_guild_config\<close> creates and returns for it. Reads and writes succeed.
    Only the keys the leveling code touches are part of the document.
  \<^item> The dictionary under the key \<open>"leveling"\<close> is a record of its three keys: every writer
    in the repository (\<open>get_leveling_config\<close>, \<open>level_config_command\<close>) stores all three.
  \<^item> \<open>add_user_xp\<close> runs under the data manager's lock and the handlers run one at a time
    on the event loop; the functions below are the sequential steps.
\<close>

type_synonym user_data = "(string \<times> int) list"

type_synonym users_dict = "(int \<times> user_data) list"

record leveling_config =
  enabled :: bool
  xp_multiplier :: rat
  level_channel_id :: "int option"

record config_data =
  leveling :: "leveling_config option"
  level_roles :: "(int \<rightharpoonup> int) option"
  user_levels :: "(int \<rightharpoonup> users_dict) option"

type_synonym files = "int \<Rightarrow> config_data"

record xp_result =
  level :: int
  xp :: int
  total_xp :: int
  leveled_up :: bool

subsection \<open>Python primitives\<close>

text \<open>\<open>int(x)\<close> of a float truncates towards zero.\<close>

definition py_int :: "rat \<Rightarrow> int" where
  "py_int q = (if 0 \<le> q then \<lfloor>q\<rfloor> else \<lceil>q\<rceil>)"

text \<open>
  Binary64 arithmetic. \<open>round_half_even\<close> rounds to the nearest integer, ties to the even
  one; \<open>binade q\<close> is the exponent \<open>e\<close> with \<open>2^e \<le> |q| < 2^(e+1)\<close>; \<open>round_binary64\<close> rounds
  to the nearest multiple of \<open>2^(e-52)\<close>, that is to 53 significant bits.
\<close>

definition round_half_even :: "rat \<Rightarrow> int" where
  "round_half_even x =
     (let f = \<lfloor>x\<rfloor>; r = x - of_int f
      in if r < 1 / 2 then f else if 1 / 2 < r then f + 1 else if even f then f else f + 1)"

definition binade :: "rat \<Rightarrow> int" where
  "binade q =
     (let a = \<bar>q\<bar>
      in if 1 \<le> a then bitlen \<lfloor>a\<rfloor> - 1 else - bitlen (\<lceil>1 / a\<rceil> - 1))"

definition round_binary64 :: "rat \<Rightarrow> rat" where
  "round_binary64 q =
     (if q = 0 then 0
      else let ulp = 2 powi (binade q - 52)
           in of_int (round_half_even (q / ulp)) * ulp)"

text \<open>\<open>float(n)\<close>, as Python converts the integer operand of \<open>n * x\<close>, and the product.\<close>

definition float_of_int :: "int \<Rightarrow> rat" where
  "float_of_int n = round_binary64 (of_int n)"

definition float_mul :: "rat \<Rightarrow> rat \<Rightarrow> rat" where
  "float_mul x y = round_binary64 (x * y)"

text \<open>\<open>d.get(k, default)\<close>.\<close>

definition dict_get :: "('k \<times> 'v) list \<Rightarrow> 'k \<Rightarrow> 'v \<Rightarrow> 'v" where
  "dict_get d k dflt = (case map_of d k of None \<Rightarrow> dflt | Some v \<Rightarrow> v)"

text \<open>
  \<open>d[k] = v\<close> on an insertion-ordered dictionary: an existing key keeps its position,
  a new key goes to the end.
\<close>

fun dict_set :: "('k \<times> 'v) list \<Rightarrow> 'k \<Rightarrow> 'v \<Rightarrow> ('k \<times> 'v) list" where
  "dict_set [] k v = [(k, v)]"
| "dict_set ((k', v') # d) k v = (if k' = k then (k, v) # d else (k', v') # dict_set d k v)"

subsection \<open>config.py\<close>

definition DEFAULT_CONFIG :: config_data where
  "DEFAULT_CONFIG = \<lparr>leveling = None, level_roles = None, user_levels = None\<rparr>"

definition load_guild_config :: "files \<Rightarrow> int \<Rightarrow> config_data" where
  "load_guild_config fs guild_id = fs guild_id"

definition save_guild_config :: "files \<Rightarrow> int \<Rightarrow> config_data \<Rightarrow> files" where
  "save_guild_config fs guild_id cd = fs(guild_id := cd)"

section \<open>data\_manager.py: the leveling system\<close>

definition default_leveling :: leveling_config where
  "default_leveling = \<lparr>enabled = False, xp_multiplier = 1.0, level_channel_id = None\<rparr>"

definition get_leveling_config :: "files \<Rightarrow> int \<Rightarrow> files \<times> leveling_config" where
  "get_leveling_config fs guild_id =
     (let cd = load_guild_config fs guild_id in
      case leveling cd of
        None \<Rightarrow> (save_guild_config fs guild_id (cd\<lparr>leveling := Some default_leveling\<rparr>),
                 default_leveling)
      | Some lc \<Rightarrow> (fs, lc))"

definition save_leveling_config :: "files \<Rightarrow> int \<Rightarrow> leveling_config \<Rightarrow> files" where
  "save_leveling_config fs guild_id lc =
     (let cd = load_guild_config fs guild_id in
      save_guild_config fs guild_id (cd\<lparr>leveling := Some lc\<rparr>))"

definition get_level_roles :: "files \<Rightarrow> int \<Rightarrow> files \<times> (int \<rightharpoonup> int)" where
  "get_level_roles fs guild_id =
     (let cd = load_guild_config fs guild_id in
      case level_roles cd of
        None \<Rightarrow> (save_guild_config fs guild_id (cd\<lparr>level_roles := Some Map.empty\<rparr>), Map.empty)
      | Some lr \<Rightarrow> (fs, lr))"

definition set_level_role :: "files \<Rightarrow> int \<Rightarrow> int \<Rightarrow> int \<Rightarrow> files" where
  "set_level_role fs guild_id lvl role_id =
     (let cd = load_guild_config fs guild_id;
          lr = (case level_roles cd of None \<Rightarrow> Map.empty | Some m \<Rightarrow> m)
      in save_guild_config fs guild_id (cd\<lparr>level_roles := Some (lr(lvl \<mapsto> role_id))\<rparr>))"

definition remove_level_role :: "files \<Rightarrow> int \<Rightarrow> int \<Rightarrow> files \<times> bool" where
  "remove_level_role fs guild_id lvl =
     (let cd = load_guild_config fs guild_id in
      case level_roles cd of
        None \<Rightarrow> (fs, False)
      | Some lr \<Rightarrow>
          if lr lvl \<noteq> None
          then (save_guild_config fs guild_id (cd\<lparr>level_roles := Some (lr(lvl := None))\<rparr>), True)
          else (fs, False))"

definition default_user_data :: user_data where
  "default_user_data = [(''level'', 1), (''xp'', 0), (''total_xp'', 0)]"

definition get_user_level_data :: "files \<Rightarrow> int \<Rightarrow> int \<Rightarrow> files \<times> user_data" where
  "get_user_level_data fs guild_id user_id =
     (let cd = load_guild_config fs guild_id;
          (fs1, cd1) = (case user_levels cd of
                          None \<Rightarrow> (let c = cd\<lparr>user_levels := Some Map.empty\<rparr>
                                   in (save_guild_config fs guild_id c, c))
                        | Some _ \<Rightarrow> (fs, cd));
          ul = (case user_levels cd1 of None \<Rightarrow> Map.empty | Some m \<Rightarrow> m);
          (fs2, users) = (case ul guild_id of
                            None \<Rightarrow> (save_guild_config fs1 guild_id
                                        (cd1\<lparr>user_levels := Some (ul(guild_id \<mapsto> []))\<rparr>), [])
                          | Some us \<Rightarrow> (fs1, us))
      in (fs2, dict_get users user_id default_user_data))"

text \<open>
  The threshold of a level, \<open>base_xp * (current_level * 1.5)\<close> with \<open>base_xp = 100\<close>; the
  source recomputes it for the current level before the loop and at the end of every
  iteration, so the loop variable \<open>xp_for_next_level\<close> is this function of \<open>current_level\<close>
  at every test.
\<close>

definition base_xp :: rat where
  "base_xp = 100"

definition xp_for_next_level :: "int \<Rightarrow> rat" where
  "xp_for_next_level current_level = base_xp * (of_int current_level * 1.5)"

text \<open>The level-up loop \<open>while current_xp >= xp_for_next_level: ...\<close>.\<close>

function level_up_loop :: "int \<Rightarrow> int \<Rightarrow> bool \<Rightarrow> int \<times> int \<times> bool" where
  "level_up_loop current_level current_xp lu =
     (if xp_for_next_level current_level \<le> of_int current_xp
      then level_up_loop (current_level + 1)
             (current_xp - py_int (xp_for_next_level current_level)) True
      else (current_level, current_xp, lu))"
  by pat_completeness auto
termination
proof (relation "measures [\<lambda>(l, x, b). nat (1 - l), \<lambda>(l, x, b). nat x]")
  show "wf (measures [\<lambda>(l, x, b). nat (1 - l), \<lambda>(l::int, x::int, b::bool). nat x])"
    by simp
next
  fix current_level current_xp :: int and lu :: bool
  assume a: "xp_for_next_level current_level \<le> of_int current_xp"
  have eq: "xp_for_next_level current_level = of_int (150 * current_level)"
    by (simp add: xp_for_next_level_def base_xp_def)
  have le: "150 * current_level \<le> current_xp"
    using a unfolding eq by (simp only: of_int_le_iff)
  have trunc: "py_int (of_int n) = n" for n :: int
    by (simp add: py_int_def)
  have sub: "py_int (xp_for_next_level current_level) = 150 * current_level"
    unfolding eq by (rule trunc)
  show "((current_level + 1, current_xp - py_int (xp_for_next_level current_level), True),
         (current_level, current_xp, lu))
        \<in> measures [\<lambda>(l, x, b). nat (1 - l), \<lambda>(l, x, b). nat x]"
    using le by (cases "current_level \<le> 0") (auto simp: sub)
qed

declare level_up_loop.simps [simp del]

text \<open>
  \<open>add_user_xp\<close>. A user without a record gets the default record, which the final
  \<open>d[user_id] = ...\<close> puts at the end of the guild's dictionary, as the initialisation of
  the source does; the three fields are then written into the record in place. The
  multiplier is \<open>config_data.get("leveling", {}).get("xp_multiplier", 1.0)\<close> and the gain
  is \<open>xp_gained = int(xp_amount * xp_multiplier)\<close>.
\<close>

definition xp_gained :: "int \<Rightarrow> rat \<Rightarrow> int" where
  "xp_gained xp_amount multiplier = py_int (float_mul (float_of_int xp_amount) multiplier)"

definition guild_multiplier :: "config_data \<Rightarrow> rat" where
  "guild_multiplier cd = (case leveling cd of None \<Rightarrow> 1.0 | Some lc \<Rightarrow> xp_multiplier lc)"

definition add_user_xp :: "files \<Rightarrow> int \<Rightarrow> int \<Rightarrow> int \<Rightarrow> files \<times> xp_result" where
  "add_user_xp fs guild_id user_id xp_amount =
     (let cd = load_guild_config fs guild_id;
          ul = (case user_levels cd of None \<Rightarrow> Map.empty | Some m \<Rightarrow> m);
          users = (case ul guild_id of None \<Rightarrow> [] | Some us \<Rightarrow> us);
          ud = (case map_of users user_id of None \<Rightarrow> default_user_data | Some d \<Rightarrow> d);
          current_level = dict_get ud ''level'' 1;
          current_xp = dict_get ud ''xp'' 0;
          total = dict_get ud ''total_xp'' 0;
          gained = xp_gained xp_amount (guild_multiplier cd);
          (new_level, new_xp, lu) =
             level_up_loop current_level (current_xp + gained) False;
          new_total = total + gained;
          ud' = dict_set (dict_set (dict_set ud ''level'' new_level) ''xp'' new_xp)
                  ''total_xp'' new_total;
          cd' = cd\<lparr>user_levels := Some (ul(guild_id \<mapsto> dict_set users user_id ud'))\<rparr>
      in (save_guild_config fs guild_id cd',
          \<lparr>level = new_level, xp = new_xp, total_xp = new_total, leveled_up = lu\<rparr>))"

text \<open>
  \<open>leaderboard.sort(key=lambda x: x[1].get("total_xp", 0), reverse=True)\<close>: Python's
  \<open>list.sort\<close> is a stable sort, and with \<open>reverse=True\<close> elements with equal keys keep
  their original order; this is the stable ascending sort by the negated key.
\<close>

definition get_level_leaderboard :: "files \<Rightarrow> int \<Rightarrow> (int \<times> user_data) list" where
  "get_level_leaderboard fs guild_id =
     (let cd = load_guild_config fs guild_id in
      case user_levels cd of
        None \<Rightarrow> []
      | Some ul \<Rightarrow>
          (case ul guild_id of
             None \<Rightarrow> []
           | Some users \<Rightarrow> sort_key (\<lambda>x. - dict_get (snd x) ''total_xp'' 0) users))"

section \<open>cogs/leveling.py: the Leveling cog\<close>

text \<open>
  The cog holds the data manager (here: the files it reads and writes) and the in-memory
  cooldown dictionary. A message carries what the handler reads from it; the roles of the
  guild and of the author are the ids for which \<open>guild.get_role\<close> returns a role and the
  ids in \<open>author.roles\<close>. It also carries the outcome of the two calls of the platform
  whose failure the handler reacts to: \<open>add_roles_ok\<close> is false when
  \<open>message.author.add_roles\<close> raises \<open>discord.HTTPException\<close>, \<open>dm_ok\<close> is false when
  \<open>message.author.send\<close> does.
\<close>

record leveling_cog =
  data :: files
  cooldowns :: "(int \<times> int) \<rightharpoonup> rat"

record message =
  author_bot :: bool
  guild :: "int option"
  author_id :: int
  content :: string
  guild_roles :: "int list"
  author_roles :: "int list"
  add_roles_ok :: bool
  dm_ok :: bool

text \<open>
  What the handler calls: the level-up announcement (\<open>LevelUp\<close>, whose failure is
  swallowed), \<open>author.add_roles(role)\<close> (\<open>AddRoles\<close>), the role-reward message to the author
  (\<open>RoleReward\<close>) and, when that message cannot be delivered, the same message in the
  level-up channel (\<open>RoleRewardInChannel\<close>, whose failure is swallowed). None of these
  calls changes the files or the cooldowns.
\<close>

datatype event = LevelUp int | AddRoles int | RoleReward int int | RoleRewardInChannel int int

definition xp_per_message :: int where
  "xp_per_message = 15"

definition random_xp_range :: int where
  "random_xp_range = 10"

text \<open>
  The role reward of \<open>on_message\<close> for the level reached (\<open>leveling.py\<close>, lines 103-133):
  the role configured for that level is added when it exists in the guild and the author
  does not hold it; the reward message follows only when \<open>add_roles\<close> did not raise.
\<close>

definition role_reward :: "(int \<rightharpoonup> int) \<Rightarrow> message \<Rightarrow> int \<Rightarrow> event list" where
  "role_reward lroles msg new_level =
     (case lroles new_level of
        None \<Rightarrow> []
      | Some role_id \<Rightarrow>
          if role_id \<in> set (guild_roles msg) \<and> role_id \<notin> set (author_roles msg)
          then AddRoles role_id #
               (if add_roles_ok msg
                then RoleReward role_id new_level #
                     (if dm_ok msg then [] else [RoleRewardInChannel role_id new_level])
                else [])
          else [])"

text \<open>
  \<open>on_message\<close>. The clock reading \<open>asyncio.get_event_loop().time()\<close> and the draw
  \<open>random.randint(0, self.random_xp_range)\<close> are inputs. The handler returns nothing in the
  source; here it returns the new state of the cog, the \<open>level_data\<close> of the award when
  \<open>add_user_xp\<close> was called (\<open>None\<close> on every early return) and the events.
\<close>

definition on_message ::
  "leveling_cog \<Rightarrow> message \<Rightarrow> rat \<Rightarrow> int \<Rightarrow> leveling_cog \<times> xp_result option \<times> event list" where
  "on_message cog msg current_time bonus =
     (case guild msg of
        None \<Rightarrow> (cog, None, [])
      | Some guild_id \<Rightarrow>
          if author_bot msg then (cog, None, [])
          else if length (content msg) < 5 then (cog, None, [])
          else
            let user_id = author_id msg;
                cooldown_key = (guild_id, user_id)
            in if (case cooldowns cog cooldown_key of
                     None \<Rightarrow> False
                   | Some last_time \<Rightarrow> current_time - last_time < 60)
               then (cog, None, [])
               else
                 let cds = (cooldowns cog)(cooldown_key \<mapsto> current_time);
                     (fs1, guild_config) = get_leveling_config (data cog) guild_id
                 in if \<not> enabled guild_config
                    then (\<lparr>data = fs1, cooldowns = cds\<rparr>, None, [])
                    else
                      let xp_to_award = xp_per_message + bonus;
                          (fs2, lroles) = get_level_roles fs1 guild_id;
                          (fs3, level_data) = add_user_xp fs2 guild_id user_id xp_to_award;
                          cog' = \<lparr>data = fs3, cooldowns = cds\<rparr>
                      in if leveled_up level_data
                         then
                           let new_level = level level_data
                           in (cog', Some level_data,
                               LevelUp new_level # role_reward lroles msg new_level)
                         else (cog', Some level_data, []))"

text \<open>
  \<open>rank_command\<close>: the position is found by the loop
  \<open>for i, (user_id, _) in enumerate(leaderboard): if int(user_id) == target: ... break\<close>.
  The reply is either the "hasn't earned any XP yet" message or the rank card with the
  position, the level, the xp, \<open>int(base_xp * (level * 1.5))\<close> and the total; the progress bar
  drawn from these numbers is presentation.
\<close>

fun user_position :: "(int \<times> 'a) list \<Rightarrow> int \<Rightarrow> nat \<Rightarrow> nat option" where
  "user_position [] target i = None"
| "user_position ((user_id, _) # rest) target i =
     (if user_id = target then Some (i + 1) else user_position rest target (i + 1))"

datatype rank_reply = NoXpYet | RankCard "nat option" int int int int

definition rank_command :: "files \<Rightarrow> int \<Rightarrow> int \<Rightarrow> files \<times> rank_reply" where
  "rank_command fs guild_id target =
     (let (fs1, user_data) = get_user_level_data fs guild_id target
      in if user_data = [] then (fs1, NoXpYet)
         else
           let leaderboard = get_level_leaderboard fs1 guild_id;
               pos = user_position leaderboard target 0;
               lvl = dict_get user_data ''level'' 1;
               x = dict_get user_data ''xp'' 0;
               total = dict_get user_data ''total_xp'' 0;
               next_level = py_int (base_xp * (of_int lvl * 1.5))
           in (fs1, RankCard pos lvl x next_level total))"

text \<open>
  \<open>level_config_command\<close> (the permission check of the decorator is the caller's). The
  bounds of the source are the floats 0.1 and 5.0; the float 0.1 is the least binary64
  number that is at least 1/10, so on binary64 arguments the comparison with 1/10 decides
  the same.
\<close>

definition level_config_command ::
  "files \<Rightarrow> int \<Rightarrow> bool option \<Rightarrow> int option \<Rightarrow> rat option \<Rightarrow> files" where
  "level_config_command fs guild_id enable level_channel multiplier =
     (let (fs1, config) = get_leveling_config fs guild_id;
          c1 = (case enable of None \<Rightarrow> config | Some e \<Rightarrow> config\<lparr>enabled := e\<rparr>);
          c2 = (case level_channel of
                  None \<Rightarrow> c1
                | Some ch \<Rightarrow> c1\<lparr>level_channel_id := Some ch\<rparr>);
          c3 = (case multiplier of
                  None \<Rightarrow> c2
                | Some m \<Rightarrow>
                    c2\<lparr>xp_multiplier := (if m < 0.1 then 0.1 else if m > 5.0 then 5.0 else m)\<rparr>);
          updated = (enable \<noteq> None \<or> level_channel \<noteq> None \<or> multiplier \<noteq> None)
      in if updated then save_leveling_config fs1 guild_id c3 else fs1)"

text \<open>
  \<open>add_xp_command\<close>. The branch \<open>if not result\<close> of the source is never taken: the result
  of \<open>add_user_xp\<close> is a dictionary with four keys.
\<close>

datatype addxp_reply = NotPositive | TooMuch | XpAdded xp_result

definition add_xp_command :: "leveling_cog \<Rightarrow> int \<Rightarrow> int \<Rightarrow> int \<Rightarrow> leveling_cog \<times> addxp_reply" where
  "add_xp_command cog guild_id user_id amount =
     (if amount \<le> 0 then (cog, NotPositive)
      else if amount > 10000 then (cog, TooMuch)
      else
        let (fs', result) = add_user_xp (data cog) guild_id user_id amount
        in (cog\<lparr>data := fs'\<rparr>, XpAdded result))"

section \<open>Observations used in the statements\<close>

text \<open>
  The users dictionary \<open>config_data["user_levels"][guild_id]\<close> as stored in the guild's
  document (empty when a level of the nesting is missing).
\<close>

definition stored_users :: "files \<Rightarrow> int \<Rightarrow> users_dict" where
  "stored_users fs guild_id =
     (case user_levels (fs guild_id) of
        None \<Rightarrow> []
      | Some ul \<Rightarrow> (case ul guild_id of None \<Rightarrow> [] | Some us \<Rightarrow> us))"


text \<open>
  Concrete states for evaluation: every guild without a document (\<open>fs0\<close>); leveling enabled
  at multiplier 1.5 (\<open>fs15\<close>); cogs over these files with no cooldown recorded; and a
  message "hello" of user 2 in guild 1, where roles 77 and 88 exist, the author holds
  neither and the calls of the platform succeed.
\<close>

definition fs0 :: files where
  "fs0 = (\<lambda>_. DEFAULT_CONFIG)"

definition fs15 :: files where
  "fs15 = (\<lambda>_. DEFAULT_CONFIG\<lparr>leveling :=
     Some \<lparr>enabled = True, xp_multiplier = 1.5, level_channel_id = None\<rparr>\<rparr>)"

definition cog0 :: leveling_cog where
  "cog0 = \<lparr>data = fs0, cooldowns = Map.empty\<rparr>"

definition cog15 :: leveling_cog where
  "cog15 = \<lparr>data = fs15, cooldowns = Map.empty\<rparr>"

definition msg_hello :: message where
  "msg_hello = \<lparr>author_bot = False, guild = Some 1, author_id = 2, content = ''hello'',
                 guild_roles = [77, 88], author_roles = [],
                 add_roles_ok = True, dm_ok = True\<rparr>"

text \<open>
  The documents the leveling code can produce: starting without any document, every
  function of the data manager's leveling section that writes a document.
\<close>

inductive reachable :: "files \<Rightarrow> bool" where
  initial: "reachable fs0"
| leveling_config: "reachable fs \<Longrightarrow> reachable (fst (get_leveling_config fs g))"
| save_leveling: "reachable fs \<Longrightarrow> reachable (save_leveling_config fs g lc)"
| roles: "reachable fs \<Longrightarrow> reachable (fst (get_level_roles fs g))"
| set_role: "reachable fs \<Longrightarrow> reachable (set_level_role fs g lvl role_id)"
| remove_role: "reachable fs \<Longrightarrow> reachable (fst (remove_level_role fs g lvl))"
| level_data: "reachable fs \<Longrightarrow> reachable (fst (get_user_level_data fs g u))"
| add_xp: "reachable fs \<Longrightarrow> reachable (fst (add_user_xp fs g u a))"

text \<open>A guild with three users whose \<open>total_xp\<close> are 500, 1500 and 1000, stored in this order.\<close>

definition fs_board :: files where
  "fs_board = (\<lambda>_. \<lparr>leveling = None, level_roles = None,
     user_levels = Some [1 \<mapsto>
       [(10, [(''level'', 3), (''xp'', 50), (''total_xp'', 500)]),
        (11, [(''level'', 5), (''xp'', 0), (''total_xp'', 1500)]),
        (12, [(''level'', 4), (''xp'', 100), (''total_xp'', 1000)])]]\<rparr>)"




text \<open>
  The states of the cog that the bot itself produces: from the start (no document, no
  cooldown) by \<open>on_ready\<close>, \<open>on_message\<close> with a draw of \<open>random.randint(0, 10)\<close>, and the
  commands \<open>/rank\<close>, \<open>/levelconfig\<close>, \<open>/setlevelrole\<close>, \<open>/levelroles\<close>, \<open>/removelevelrole\<close>
  and \<open>/addxp\<close> (\<open>/leaderboard\<close> only reads). The commands are taken with any argument.
\<close>

inductive bot_reachable :: "leveling_cog \<Rightarrow> bool" where
  start: "bot_reachable cog0"
| ready: "bot_reachable cog \<Longrightarrow> bot_reachable (cog\<lparr>cooldowns := Map.empty\<rparr>)"
| config_read:
    "bot_reachable cog \<Longrightarrow>
     bot_reachable (cog\<lparr>data := fst (get_leveling_config (data cog) g)\<rparr>)"
| message:
    "bot_reachable cog \<Longrightarrow> 0 \<le> bonus \<Longrightarrow> bonus \<le> random_xp_range \<Longrightarrow>
     bot_reachable (fst (on_message cog msg t bonus))"
| rank:
    "bot_reachable cog \<Longrightarrow> bot_reachable (cog\<lparr>data := fst (rank_command (data cog) g u)\<rparr>)"
| levelconfig:
    "bot_reachable cog \<Longrightarrow>
     bot_reachable (cog\<lparr>data := level_config_command (data cog) g enable ch m\<rparr>)"
| setlevelrole:
    "bot_reachable cog \<Longrightarrow>
     bot_reachable (cog\<lparr>data := set_level_role (data cog) g lvl role_id\<rparr>)"
| levelroles:
    "bot_reachable cog \<Longrightarrow> bot_reachable (cog\<lparr>data := fst (get_level_roles (data cog) g)\<rparr>)"
| removelevelrole:
    "bot_reachable cog \<Longrightarrow>
     bot_reachable (cog\<lparr>data := fst (remove_level_role (data cog) g lvl)\<rparr>)"
| addxp: "bot_reachable cog \<Longrightarrow> bot_reachable (fst (add_xp_command cog g u amount))"






section \<open>Basic facts\<close>

subsection \<open>Binary64 rounding\<close>

lemma round_half_even_of_int: "round_half_even (of_int k) = k"
  by (simp add: round_half_even_def)

lemma round_half_even_floor: "\<lfloor>x\<rfloor> \<le> round_half_even x"
  by (simp add: round_half_even_def Let_def)

lemma round_half_even_ge:
  assumes "of_int k \<le> x"
  shows "k \<le> round_half_even x"
proof -
  from assms have "k \<le> \<lfloor>x\<rfloor>" by (simp add: le_floor_iff)
  with round_half_even_floor [of x] show ?thesis by linarith
qed

lemma round_half_even_le:
  assumes "x \<le> of_int k"
  shows "round_half_even x \<le> k"
proof (cases "x = of_int \<lfloor>x\<rfloor>")
  case True
  then have "round_half_even x = \<lfloor>x\<rfloor>"
    by (metis round_half_even_of_int)
  with assms show ?thesis
    by (simp add: floor_le_iff)
next
  case False
  then have "of_int \<lfloor>x\<rfloor> \<noteq> x" by (rule not_sym)
  then have "of_int \<lfloor>x\<rfloor> < x"
    using of_int_floor_le [of x] by (rule order.not_eq_order_implies_strict)
  with assms have "of_int \<lfloor>x\<rfloor> < (of_int k :: rat)" by linarith
  then have "\<lfloor>x\<rfloor> < k" by simp
  moreover have "round_half_even x \<le> \<lfloor>x\<rfloor> + 1"
    by (simp add: round_half_even_def Let_def)
  ultimately show ?thesis by linarith
qed

lemma binade_bounds:
  assumes "0 < q"
  shows "2 powi (binade q) \<le> q" and "q < 2 powi (binade q + 1)"
proof -
  show "2 powi (binade q) \<le> q"
  proof (cases "1 \<le> q")
    case True
    then have p: "0 < \<lfloor>q\<rfloor>" by simp
    from bitlen_bounds [OF p] have "2 ^ nat (bitlen \<lfloor>q\<rfloor> - 1) \<le> \<lfloor>q\<rfloor>" by simp
    then have "(of_int (2 ^ nat (bitlen \<lfloor>q\<rfloor> - 1)) :: rat) \<le> of_int \<lfloor>q\<rfloor>"
      by (simp only: of_int_le_iff)
    also have "\<dots> \<le> q" by simp
    finally have "(2::rat) ^ nat (bitlen \<lfloor>q\<rfloor> - 1) \<le> q" by simp
    moreover have "1 \<le> bitlen \<lfloor>q\<rfloor>"
      using p by (simp add: bitlen_alt_def)
    ultimately show ?thesis
      using True assms by (simp add: binade_def power_int_def)
  next
    case False
    let ?c = "\<lceil>1 / q\<rceil> - 1"
    from False assms have "1 < 1 / q" by simp
    then have c: "0 < ?c" by (simp add: less_ceiling_iff)
    from bitlen_bounds [OF c] have "?c < 2 ^ nat (bitlen ?c)" by simp
    then have "\<lceil>1 / q\<rceil> \<le> 2 ^ nat (bitlen ?c)" by simp
    then have "1 / q \<le> of_int (2 ^ nat (bitlen ?c))"
      by (simp only: ceiling_le_iff)
    then have "1 / q \<le> 2 ^ nat (bitlen ?c)" by simp
    then have "1 \<le> 2 ^ nat (bitlen ?c) * q"
      using assms by (simp add: field_simps)
    then have "1 / 2 ^ nat (bitlen ?c) \<le> q"
      by (simp add: field_simps)
    moreover have "2 powi (- bitlen ?c) = (1 :: rat) / 2 ^ nat (bitlen ?c)"
      using bitlen_nonneg [of ?c]
      by (simp add: power_int_minus power_int_def field_simps)
    ultimately show ?thesis
      using False assms by (simp add: binade_def)
  qed
  show "q < 2 powi (binade q + 1)"
  proof (cases "1 \<le> q")
    case True
    then have p: "0 < \<lfloor>q\<rfloor>" by simp
    from bitlen_bounds [OF p] have "\<lfloor>q\<rfloor> + 1 \<le> 2 ^ nat (bitlen \<lfloor>q\<rfloor>)" by simp
    then have "(of_int (\<lfloor>q\<rfloor> + 1) :: rat) \<le> of_int (2 ^ nat (bitlen \<lfloor>q\<rfloor>))"
      by (simp only: of_int_le_iff)
    moreover have "q < of_int (\<lfloor>q\<rfloor> + 1)" by linarith
    ultimately have "q < 2 ^ nat (bitlen \<lfloor>q\<rfloor>)" by simp
    then show ?thesis
      using True assms bitlen_nonneg [of "\<lfloor>q\<rfloor>"] by (simp add: binade_def power_int_def)
  next
    case False
    let ?c = "\<lceil>1 / q\<rceil> - 1"
    from False assms have "1 < 1 / q" by simp
    then have c: "0 < ?c" by (simp add: less_ceiling_iff)
    have b1: "1 \<le> bitlen ?c"
      using c by (simp add: bitlen_alt_def)
    from bitlen_bounds [OF c] have "2 ^ nat (bitlen ?c - 1) \<le> ?c" by simp
    then have "(of_int (2 ^ nat (bitlen ?c - 1)) :: rat) \<le> of_int ?c"
      by (simp only: of_int_le_iff)
    moreover have "of_int ?c < 1 / q" by linarith
    ultimately have "2 ^ nat (bitlen ?c - 1) < 1 / q" by simp
    then have "2 ^ nat (bitlen ?c - 1) * q < 1"
      using assms by (simp add: field_simps)
    then have "q < 1 / 2 ^ nat (bitlen ?c - 1)"
      by (simp add: field_simps)
    moreover have "2 powi (- bitlen ?c + 1) = (1 :: rat) / 2 ^ nat (bitlen ?c - 1)"
    proof -
      have "- bitlen ?c + 1 = - (bitlen ?c - 1)" by simp
      then have "(2::rat) powi (- bitlen ?c + 1) = inverse (2 powi (bitlen ?c - 1))"
        by (simp only: power_int_minus)
      also have "\<dots> = 1 / 2 ^ nat (bitlen ?c - 1)"
        using b1 by (simp add: power_int_def field_simps)
      finally show ?thesis .
    qed
    ultimately show ?thesis
      using False assms by (simp add: binade_def)
  qed
qed


lemma round_binary64_nonneg:
  assumes "0 \<le> q"
  shows "0 \<le> round_binary64 q"
proof (cases "q = 0")
  case True
  then show ?thesis by (simp add: round_binary64_def)
next
  case False
  let ?u = "(2::rat) powi (binade q - 52)"
  have u: "0 < ?u" by simp
  with assms have "of_int 0 \<le> q / ?u" by simp
  then have "0 \<le> round_half_even (q / ?u)" by (rule round_half_even_ge)
  with u False show ?thesis
    by (simp add: round_binary64_def Let_def)
qed

lemma binade_less:
  assumes "0 < q" and "q < 2 powi k"
  shows "binade q < k"
proof (rule ccontr)
  assume "\<not> binade q < k"
  then have "k \<le> binade q" by simp
  then have "(2::rat) powi k \<le> 2 powi (binade q)"
    by (intro power_int_increasing) simp_all
  also have "\<dots> \<le> q" using assms(1) by (rule binade_bounds(1))
  finally show False using assms(2) by simp
qed

lemma binade_ge:
  assumes "0 < q" and "2 powi k \<le> q"
  shows "k \<le> binade q"
proof (rule ccontr)
  assume "\<not> k \<le> binade q"
  then have "binade q + 1 \<le> k" by simp
  then have "(2::rat) powi (binade q + 1) \<le> 2 powi k"
    by (intro power_int_increasing) simp_all
  with binade_bounds(2) [OF assms(1)] assms(2) show False by simp
qed

text \<open>Integers that are multiples of the unit in the last place.\<close>

lemma ulp_divides_int:
  assumes "e \<le> 52"
  shows "of_int n / (2 powi (e - 52) :: rat) = of_int (n * 2 ^ nat (52 - e))"
proof -
  have "(2::rat) powi (e - 52) = inverse (2 powi (52 - e))"
    using power_int_minus [of "2::rat" "52 - e"] by simp
  also have "\<dots> = inverse (2 ^ nat (52 - e))"
    using assms by (simp add: power_int_def)
  finally show ?thesis by (simp add: field_simps)
qed

lemma round_binary64_int_lower:
  assumes n: "0 < n" and b: "n \<le> 2 ^ 53" and le: "of_int n \<le> q"
  shows "of_int n \<le> round_binary64 q"
proof -
  have q: "0 < q" using n le by (simp add: less_le_trans [of 0 "of_int n" q])
  let ?e = "binade q"
  let ?u = "(2::rat) powi (?e - 52)"
  have u: "0 < ?u" by simp
  have r: "round_binary64 q = of_int (round_half_even (q / ?u)) * ?u"
    using q by (simp add: round_binary64_def Let_def)
  show ?thesis
  proof (cases "?e \<le> 52")
    case True
    let ?k = "n * 2 ^ nat (52 - ?e)"
    have k: "of_int n / ?u = of_int ?k" using True by (rule ulp_divides_int)
    have "of_int n / ?u \<le> q / ?u" using le u by (simp add: divide_right_mono)
    then have "of_int ?k \<le> q / ?u" by (simp only: k)
    then have "?k \<le> round_half_even (q / ?u)" by (rule round_half_even_ge)
    then have "(of_int ?k :: rat) \<le> of_int (round_half_even (q / ?u))"
      by (simp only: of_int_le_iff)
    then have "of_int ?k * ?u \<le> of_int (round_half_even (q / ?u)) * ?u"
      using u by (simp only: mult_le_cancel_right_pos)
    moreover have "of_int ?k * ?u = of_int n"
      using k u by (simp add: field_simps)
    ultimately show ?thesis by (simp only: r)
  next
    case False
    then have e: "53 \<le> ?e" by simp
    have "(2::rat) powi 52 * ?u = 2 powi ?e"
      using power_int_add [of "2::rat" 52 "?e - 52"] by simp
    moreover have "2 powi ?e \<le> q" using q by (rule binade_bounds(1))
    ultimately have "2 powi 52 * ?u \<le> q" by simp
    then have "2 powi 52 \<le> q / ?u"
      using u by (simp add: pos_le_divide_eq)
    then have "of_int (2 ^ 52) \<le> q / ?u" by simp
    then have "2 ^ 52 \<le> round_half_even (q / ?u)" by (rule round_half_even_ge)
    then have "(of_int (2 ^ 52) :: rat) \<le> of_int (round_half_even (q / ?u))"
      by (simp only: of_int_le_iff)
    then have "of_int (2 ^ 52) * ?u \<le> of_int (round_half_even (q / ?u)) * ?u"
      using u by (simp only: mult_le_cancel_right_pos)
    moreover have "of_int (2 ^ 52) * ?u = 2 powi ?e"
      using power_int_add [of "2::rat" 52 "?e - 52"] by simp
    moreover have "(2::rat) powi 53 \<le> 2 powi ?e"
      using e by (intro power_int_increasing) simp_all
    moreover have "(of_int n :: rat) \<le> 2 powi 53"
    proof -
      from b have "(of_int n :: rat) \<le> of_int (2 ^ 53)" by (simp only: of_int_le_iff)
      then show ?thesis by simp
    qed
    ultimately show ?thesis by (simp only: r)
  qed
qed

lemma round_binary64_int_upper:
  assumes q: "0 \<le> q" and b: "n < 2 ^ 53" and le: "q \<le> of_int n"
  shows "round_binary64 q \<le> of_int n"
proof (cases "q = 0")
  case True
  with le show ?thesis by (simp add: round_binary64_def)
next
  case False
  with q have q0: "0 < q" by simp
  let ?e = "binade q"
  let ?u = "(2::rat) powi (?e - 52)"
  have u: "0 < ?u" by simp
  have r: "round_binary64 q = of_int (round_half_even (q / ?u)) * ?u"
    using q0 by (simp add: round_binary64_def Let_def)
  have nb: "(of_int n :: rat) < 2 powi 53"
  proof -
    from b have "(of_int n :: rat) < of_int (2 ^ 53)" by (simp only: of_int_less_iff)
    then show ?thesis by simp
  qed
  have "q < 2 powi 53" using le nb by simp
  then have e: "?e \<le> 52" using binade_less [OF q0, of 53] by simp
  show ?thesis
  proof -
    let ?k = "n * 2 ^ nat (52 - ?e)"
    have k: "of_int n / ?u = of_int ?k" using e by (rule ulp_divides_int)
    have "q / ?u \<le> of_int n / ?u" using le u by (simp add: divide_right_mono)
    then have "q / ?u \<le> of_int ?k" by (simp only: k)
    then have "round_half_even (q / ?u) \<le> ?k" by (rule round_half_even_le)
    then have "(of_int (round_half_even (q / ?u)) :: rat) \<le> of_int ?k"
      by (simp only: of_int_le_iff)
    then have "of_int (round_half_even (q / ?u)) * ?u \<le> of_int ?k * ?u"
      using u by (simp only: mult_le_cancel_right_pos)
    moreover have "of_int ?k * ?u = of_int n"
      using k u by (simp add: field_simps)
    ultimately show ?thesis by (simp only: r)
  qed
qed

lemma round_binary64_of_int:
  assumes "0 \<le> n" and "n < 2 ^ 53"
  shows "round_binary64 (of_int n) = of_int n"
proof (cases "n = 0")
  case True
  then show ?thesis by (simp add: round_binary64_def)
next
  case False
  with assms(1) have "0 < n" by simp
  then have "of_int n \<le> round_binary64 (of_int n)"
    using assms(2) by (intro round_binary64_int_lower) simp_all
  moreover have "round_binary64 (of_int n) \<le> of_int n"
    using assms by (intro round_binary64_int_upper) simp_all
  ultimately show ?thesis by simp
qed





lemma float_of_int_exact: "0 \<le> n \<Longrightarrow> n < 2 ^ 53 \<Longrightarrow> float_of_int n = of_int n"
  by (simp add: float_of_int_def round_binary64_of_int)

lemma xp_gained_floor_float:
  assumes "0 \<le> a" and "a < 2 ^ 53" and "0 \<le> m"
  shows "xp_gained a m = \<lfloor>round_binary64 (of_int a * m)\<rfloor>"
proof -
  have "0 \<le> of_int a * m" using assms by simp
  then have "0 \<le> round_binary64 (of_int a * m)" by (rule round_binary64_nonneg)
  then show ?thesis
    using assms by (simp add: xp_gained_def float_mul_def float_of_int_exact py_int_def)
qed

lemma xp_gained_one: "0 \<le> a \<Longrightarrow> a < 2 ^ 53 \<Longrightarrow> xp_gained a 1 = a"
  by (simp add: xp_gained_floor_float round_binary64_of_int)

lemma xp_gained_ge_amount:
  assumes "0 < a" and "a < 2 ^ 53" and "1 \<le> m"
  shows "a \<le> xp_gained a m"
proof -
  have "of_int a * 1 \<le> of_int a * m"
    using assms by (intro mult_left_mono) simp_all
  then have "of_int a \<le> of_int a * m" by simp
  then have "of_int a \<le> round_binary64 (of_int a * m)"
    using assms by (intro round_binary64_int_lower) simp_all
  then have "a \<le> \<lfloor>round_binary64 (of_int a * m)\<rfloor>" by (simp add: le_floor_iff)
  then show ?thesis using assms by (simp add: xp_gained_floor_float)
qed


subsection \<open>The level-up loop and the stored records\<close>

lemma xp_for_next_level_eq: "xp_for_next_level l = of_int (150 * l)"
  by (simp add: xp_for_next_level_def base_xp_def)

lemma py_int_of_int: "py_int (of_int n) = n"
  by (simp add: py_int_def)

lemma py_int_xp_for_next_level: "py_int (xp_for_next_level l) = 150 * l"
  unfolding xp_for_next_level_eq by (rule py_int_of_int)

lemma xp_for_next_level_le: "xp_for_next_level l \<le> of_int x \<longleftrightarrow> 150 * l \<le> x"
  unfolding xp_for_next_level_eq by (rule of_int_le_iff)

lemma level_up_loop_unfold:
  "level_up_loop l x b =
     (if 150 * l \<le> x then level_up_loop (l + 1) (x - 150 * l) True else (l, x, b))"
  by (subst level_up_loop.simps) (simp only: xp_for_next_level_le py_int_xp_for_next_level)

lemma map_of_dict_set: "map_of (dict_set d k v) = (map_of d)(k \<mapsto> v)"
  by (induction d) auto

lemma dict_get_dict_set:
  "dict_get (dict_set d k v) k' dflt = (if k' = k then v else dict_get d k' dflt)"
  by (simp add: dict_get_def map_of_dict_set)

lemma dict_set_nonempty: "dict_set d k v \<noteq> []"
  by (cases d) (auto split: if_splits)

lemma level_up_loop_exit:
  "level_up_loop l x b = (l', x', b') \<Longrightarrow> x' < 150 * l'"
proof (induction l x b rule: level_up_loop.induct)
  case (1 l x b)
  show ?case
  proof (cases "150 * l \<le> x")
    case True
    with "1.prems" have "level_up_loop (l + 1) (x - 150 * l) True = (l', x', b')"
      by (subst (asm) level_up_loop_unfold) simp
    moreover from True have "xp_for_next_level l \<le> of_int x"
      by (simp only: xp_for_next_level_le)
    ultimately show ?thesis
      using "1.IH" by (simp only: py_int_xp_for_next_level)
  next
    case False
    with "1.prems" show ?thesis
      by (subst (asm) level_up_loop_unfold) simp
  qed
qed

lemma level_up_loop_nonneg:
  "0 \<le> x \<Longrightarrow> level_up_loop l x b = (l', x', b') \<Longrightarrow> 0 \<le> x'"
proof (induction l x b rule: level_up_loop.induct)
  case (1 l x b)
  show ?case
  proof (cases "150 * l \<le> x")
    case True
    with "1.prems" have "level_up_loop (l + 1) (x - 150 * l) True = (l', x', b')"
      by (subst (asm) level_up_loop_unfold) simp
    moreover from True have "xp_for_next_level l \<le> of_int x"
      by (simp only: xp_for_next_level_le)
    moreover from True "1.prems"(1) have "0 \<le> x - 150 * l" by simp
    ultimately show ?thesis
      using "1.IH" by (simp only: py_int_xp_for_next_level)
  next
    case False
    with "1.prems" show ?thesis
      by (subst (asm) level_up_loop_unfold) simp
  qed
qed

lemma users_of:
  "(case (case user_levels (fs g) of None \<Rightarrow> Map.empty | Some m \<Rightarrow> m) g of
      None \<Rightarrow> [] | Some us \<Rightarrow> us) = stored_users fs g"
  by (simp add: stored_users_def split: option.splits)

lemma record_of: "(case map_of d k of None \<Rightarrow> dflt | Some v \<Rightarrow> v) = dict_get d k dflt"
  by (simp add: dict_get_def)

lemma get_user_level_data_snd:
  "snd (get_user_level_data fs g u) = dict_get (stored_users fs g) u default_user_data"
proof (cases "user_levels (fs g)")
  case None
  then show ?thesis
    by (simp add: get_user_level_data_def stored_users_def load_guild_config_def
        save_guild_config_def dict_get_def Let_def)
next
  case (Some ul)
  then show ?thesis
    by (cases "ul g")
       (simp_all add: get_user_level_data_def stored_users_def load_guild_config_def
        save_guild_config_def Let_def dict_get_def)
qed

lemma add_user_xp_snd:
  "snd (add_user_xp fs g u a) =
     (let ud = dict_get (stored_users fs g) u default_user_data;
          gained = xp_gained a (guild_multiplier (fs g));
          r = level_up_loop (dict_get ud ''level'' 1) (dict_get ud ''xp'' 0 + gained) False
      in \<lparr>level = fst r, xp = fst (snd r),
          total_xp = dict_get ud ''total_xp'' 0 + gained, leveled_up = snd (snd r)\<rparr>)"
  by (simp add: add_user_xp_def load_guild_config_def users_of record_of
      Let_def case_prod_beta)

lemma add_user_xp_fst:
  "fst (add_user_xp fs g u a) =
     (let ud = dict_get (stored_users fs g) u default_user_data;
          res = snd (add_user_xp fs g u a);
          ul = (case user_levels (fs g) of None \<Rightarrow> Map.empty | Some m \<Rightarrow> m)
      in fs(g := (fs g)\<lparr>user_levels := Some (ul(g \<mapsto> dict_set (stored_users fs g) u
           (dict_set (dict_set (dict_set ud ''level'' (level res)) ''xp'' (xp res))
              ''total_xp'' (total_xp res))))\<rparr>))"
  by (simp add: add_user_xp_def load_guild_config_def save_guild_config_def users_of record_of
      Let_def case_prod_beta)

lemma add_user_xp_stored:
  "stored_users (fst (add_user_xp fs g u a)) g =
     (let ud = dict_get (stored_users fs g) u default_user_data;
          res = snd (add_user_xp fs g u a)
      in dict_set (stored_users fs g) u
           (dict_set (dict_set (dict_set ud ''level'' (level res)) ''xp'' (xp res))
              ''total_xp'' (total_xp res)))"
  by (simp add: add_user_xp_fst Let_def) (simp add: stored_users_def)

lemma add_user_xp_other_guild:
  "g' \<noteq> g \<Longrightarrow> fst (add_user_xp fs g u a) g' = fs g'"
  by (simp add: add_user_xp_fst Let_def)

lemma add_user_xp_leveling:
  "leveling (fst (add_user_xp fs g u a) g') = leveling (fs g')"
  by (simp add: add_user_xp_fst Let_def)


lemma stored_after_add_user_xp:
  "snd (get_user_level_data (fst (add_user_xp fs g u a)) g u) =
     (let ud = dict_get (stored_users fs g) u default_user_data;
          res = snd (add_user_xp fs g u a)
      in dict_set (dict_set (dict_set ud ''level'' (level res)) ''xp'' (xp res))
              ''total_xp'' (total_xp res))"
  by (simp add: get_user_level_data_snd add_user_xp_stored Let_def dict_get_dict_set)

lemma stored_fields_after_add_user_xp:
  "dict_get (snd (get_user_level_data (fst (add_user_xp fs g u a)) g u)) ''level'' d1
     = level (snd (add_user_xp fs g u a))"
  "dict_get (snd (get_user_level_data (fst (add_user_xp fs g u a)) g u)) ''xp'' d2
     = xp (snd (add_user_xp fs g u a))"
  "dict_get (snd (get_user_level_data (fst (add_user_xp fs g u a)) g u)) ''total_xp'' d3
     = total_xp (snd (add_user_xp fs g u a))"
  by (simp_all add: stored_after_add_user_xp Let_def dict_get_dict_set)

lemma py_int_nonneg: "0 \<le> q \<Longrightarrow> py_int q = \<lfloor>q\<rfloor>"
  by (simp add: py_int_def)

lemma gained_nonneg: "0 \<le> a \<Longrightarrow> 0 \<le> m \<Longrightarrow> 0 \<le> xp_gained a m"
  by (simp add: xp_gained_def py_int_def float_mul_def float_of_int_def round_binary64_nonneg)

lemma add_user_xp_loop:
  "level_up_loop
     (dict_get (snd (get_user_level_data fs g u)) ''level'' 1)
     (dict_get (snd (get_user_level_data fs g u)) ''xp'' 0
        + xp_gained a (guild_multiplier (fs g))) False
   = (level (snd (add_user_xp fs g u a)), xp (snd (add_user_xp fs g u a)),
      leveled_up (snd (add_user_xp fs g u a)))"
  by (simp add: add_user_xp_snd get_user_level_data_snd Let_def)

lemma add_user_xp_total:
  "total_xp (snd (add_user_xp fs g u a)) =
     dict_get (snd (get_user_level_data fs g u)) ''total_xp'' 0
       + xp_gained a (guild_multiplier (fs g))"
  by (simp add: add_user_xp_snd get_user_level_data_snd Let_def)

lemma required_floor: "\<lfloor>100 * (of_int l :: rat) * 1.5\<rfloor> = 150 * l"
proof -
  have "100 * (of_int l :: rat) * 1.5 = of_int (150 * l)" by simp
  then show ?thesis by (simp only: floor_of_int)
qed

subsection \<open>Configuration accessors and the message handler\<close>

lemma get_leveling_config_snd:
  "snd (get_leveling_config fs g) =
     (case leveling (fs g) of None \<Rightarrow> default_leveling | Some lc \<Rightarrow> lc)"
  by (simp add: get_leveling_config_def load_guild_config_def Let_def split: option.splits)

lemma get_leveling_config_fst:
  "fst (get_leveling_config fs g) =
     fs(g := (fs g)\<lparr>leveling := Some (snd (get_leveling_config fs g))\<rparr>)"
proof (cases "leveling (fs g)")
  case None
  then show ?thesis
    by (simp add: get_leveling_config_def load_guild_config_def save_guild_config_def Let_def)
next
  case (Some lc)
  then have same: "(fs g)\<lparr>leveling := Some lc\<rparr> = fs g" by simp
  from Some show ?thesis
    by (simp add: get_leveling_config_def load_guild_config_def Let_def same)
qed


lemma get_level_roles_fst:
  "fst (get_level_roles fs g) =
     fs(g := (fs g)\<lparr>level_roles := Some (snd (get_level_roles fs g))\<rparr>)"
proof (cases "level_roles (fs g)")
  case None
  then show ?thesis
    by (simp add: get_level_roles_def load_guild_config_def save_guild_config_def Let_def)
next
  case (Some lr)
  then have same: "(fs g)\<lparr>level_roles := Some lr\<rparr> = fs g" by simp
  from Some show ?thesis
    by (simp add: get_level_roles_def load_guild_config_def Let_def same)
qed

lemma stored_users_get_leveling_config:
  "stored_users (fst (get_leveling_config fs g)) g' = stored_users fs g'"
  by (simp add: get_leveling_config_fst stored_users_def)

lemma stored_users_get_level_roles:
  "stored_users (fst (get_level_roles fs g)) g' = stored_users fs g'"
  by (simp add: get_level_roles_fst stored_users_def)



lemma leveling_get_level_roles:
  "leveling (fst (get_level_roles fs g) g') = leveling (fs g')"
  by (simp add: get_level_roles_fst)


lemma config_after_get_leveling_config:
  "snd (get_leveling_config (fst (get_leveling_config fs g)) g') = snd (get_leveling_config fs g')"
  by (simp add: get_leveling_config_snd [of "fst (get_leveling_config fs g)"]
      get_leveling_config_fst)
     (simp add: get_leveling_config_snd)

lemma config_after_get_level_roles:
  "snd (get_leveling_config (fst (get_level_roles fs g)) g') = snd (get_leveling_config fs g')"
  by (simp add: get_leveling_config_snd leveling_get_level_roles)

lemma config_after_add_user_xp:
  "snd (get_leveling_config (fst (add_user_xp fs g u a)) g') = snd (get_leveling_config fs g')"
  by (simp add: get_leveling_config_snd add_user_xp_leveling)


lemma stored_users_add_user_xp_other:
  "g' \<noteq> g \<Longrightarrow> stored_users (fst (add_user_xp fs g u a)) g' = stored_users fs g'"
  by (simp add: stored_users_def add_user_xp_other_guild)

text \<open>The three ways through \<open>on_message\<close> for a message that passes the first checks.\<close>

lemma on_message_cooldown:
  assumes "guild msg = Some g" and "\<not> author_bot msg" and "5 \<le> length (content msg)"
    and "cooldowns cog (g, author_id msg) = Some last_time" and "t - last_time < 60"
  shows "on_message cog msg t b = (cog, None, [])"
  using assms by (simp add: on_message_def)

lemma on_message_disabled:
  assumes "guild msg = Some g" and "\<not> author_bot msg" and "5 \<le> length (content msg)"
    and "case cooldowns cog (g, author_id msg) of
           None \<Rightarrow> True | Some last_time \<Rightarrow> 60 \<le> t - last_time"
    and "\<not> enabled (snd (get_leveling_config (data cog) g))"
  shows "on_message cog msg t b =
           (\<lparr>data = fst (get_leveling_config (data cog) g),
             cooldowns = (cooldowns cog)((g, author_id msg) \<mapsto> t)\<rparr>, None, [])"
proof (cases "cooldowns cog (g, author_id msg)")
  case None
  with assms show ?thesis
    by (simp add: on_message_def Let_def case_prod_beta)
next
  case (Some last_time)
  with assms have "\<not> t - last_time < 60" by simp
  with Some assms show ?thesis
    by (simp add: on_message_def Let_def case_prod_beta)
qed

lemma on_message_enabled:
  assumes "guild msg = Some g" and "\<not> author_bot msg" and "5 \<le> length (content msg)"
    and "case cooldowns cog (g, author_id msg) of
           None \<Rightarrow> True | Some last_time \<Rightarrow> 60 \<le> t - last_time"
    and "enabled (snd (get_leveling_config (data cog) g))"
  shows "on_message cog msg t b =
           (let fs1 = fst (get_leveling_config (data cog) g);
                r = add_user_xp (fst (get_level_roles fs1 g)) g (author_id msg)
                      (xp_per_message + b)
            in (\<lparr>data = fst r, cooldowns = (cooldowns cog)((g, author_id msg) \<mapsto> t)\<rparr>,
                Some (snd r),
                if leveled_up (snd r)
                then LevelUp (level (snd r)) #
                     role_reward (snd (get_level_roles fs1 g)) msg (level (snd r))
                else []))"
proof (cases "cooldowns cog (g, author_id msg)")
  case None
  with assms show ?thesis
    by (simp add: on_message_def Let_def case_prod_beta)
next
  case (Some last_time)
  with assms have "\<not> t - last_time < 60" by simp
  with Some assms show ?thesis
    by (simp add: on_message_def Let_def case_prod_beta)
qed

section \<open>The claims\<close>

text \<open>
  Claim C1. For a user whose stored (or lazily created) record has \<open>xp \<ge> 0\<close>, a non-negative
  grant and a non-negative multiplier, the record stored after \<open>add_user_xp\<close> satisfies
  \<open>0 \<le> xp < required(level)\<close> with \<open>required(level) = floor(100 * level * 1.5)\<close>, and it is
  the record the call returns. The level-up loop always converges: \<open>level_up_loop\<close> is a
  total function (its termination is proved at its definition).
\<close>

theorem add_user_xp_bound:
  assumes "0 \<le> dict_get (snd (get_user_level_data fs g u)) ''xp'' 0"
    and "0 \<le> xp_amount"
    and "0 \<le> guild_multiplier (fs g)"
  shows "let ud = snd (get_user_level_data (fst (add_user_xp fs g u xp_amount)) g u);
             x = dict_get ud ''xp'' 0;
             l = dict_get ud ''level'' 1
         in 0 \<le> x \<and> x < \<lfloor>100 * (of_int l :: rat) * 1.5\<rfloor>
            \<and> of_int x < xp_for_next_level l
            \<and> x = xp (snd (add_user_xp fs g u xp_amount))
            \<and> l = level (snd (add_user_xp fs g u xp_amount))"
proof -
  let ?res = "snd (add_user_xp fs g u xp_amount)"
  let ?gained = "xp_gained xp_amount (guild_multiplier (fs g))"
  have g0: "0 \<le> ?gained"
    using assms(2,3) by (rule gained_nonneg)
  have loop: "level_up_loop (dict_get (snd (get_user_level_data fs g u)) ''level'' 1)
     (dict_get (snd (get_user_level_data fs g u)) ''xp'' 0 + ?gained) False
     = (level ?res, xp ?res, leveled_up ?res)"
    by (rule add_user_xp_loop)
  have start: "0 \<le> dict_get (snd (get_user_level_data fs g u)) ''xp'' 0 + ?gained"
    using assms(1) g0 by simp
  have lo: "0 \<le> xp ?res"
    using level_up_loop_nonneg [OF start loop] .
  have hi: "xp ?res < 150 * level ?res"
    using level_up_loop_exit [OF loop] .
  have hi': "rat_of_int (xp ?res) < xp_for_next_level (level ?res)"
    using hi unfolding xp_for_next_level_eq by (simp only: of_int_less_iff)
  show ?thesis
    using lo hi hi'
    by (simp only: Let_def stored_fields_after_add_user_xp required_floor)
qed

theorem add_user_xp_bound_witness:
  "0 \<le> dict_get (snd (get_user_level_data fs0 1 2)) ''xp'' 0
   \<and> (0::int) \<le> 450 \<and> 0 \<le> guild_multiplier (fs0 1)
   \<and> (let ud = snd (get_user_level_data (fst (add_user_xp fs0 1 2 450)) 1 2);
           x = dict_get ud ''xp'' 0;
           l = dict_get ud ''level'' 1
       in 0 \<le> x \<and> x < \<lfloor>100 * (of_int l :: rat) * 1.5\<rfloor>
          \<and> of_int x < xp_for_next_level l
          \<and> x = xp (snd (add_user_xp fs0 1 2 450))
          \<and> l = level (snd (add_user_xp fs0 1 2 450)))"
proof -
  have h1: "0 \<le> dict_get (snd (get_user_level_data fs0 1 2)) ''xp'' 0"
    by (simp add: get_user_level_data_snd stored_users_def fs0_def DEFAULT_CONFIG_def
        dict_get_def default_user_data_def)
  have h2: "(0::int) \<le> 450" by simp
  have h3: "0 \<le> guild_multiplier (fs0 1)"
    by (simp add: guild_multiplier_def fs0_def DEFAULT_CONFIG_def)
  show ?thesis
    using h1 h2 h3 add_user_xp_bound [OF h1 h2 h3] by simp
qed

lemma fresh_lookup:
  "map_of (stored_users fs g) u = None \<Longrightarrow>
   dict_get (stored_users fs g) u default_user_data = default_user_data"
  by (simp add: dict_get_def)

lemma default_fields:
  "dict_get default_user_data ''level'' 1 = 1"
  "dict_get default_user_data ''xp'' 0 = 0"
  "dict_get default_user_data ''total_xp'' 0 = 0"
  by (simp_all add: dict_get_def default_user_data_def)

lemma loop_149: "level_up_loop 1 149 False = (1, 149, False)"
  by (simp add: level_up_loop_unfold)

lemma loop_150: "level_up_loop 1 150 False = (2, 0, True)"
  by (simp add: level_up_loop_unfold)

lemma loop_450: "level_up_loop 1 450 False = (3, 0, True)"
  by (simp add: level_up_loop_unfold)

text \<open>
  Claim C2. For a fresh user (no stored record) in a guild with multiplier 1.0, one call of
  \<open>add_user_xp\<close> with 149 gives level 1, xp 149, no level-up; with 150 gives level 2, xp 0,
  level-up; with 450 gives level 3, xp 0, level-up. The stored record agrees.
\<close>

theorem fresh_user_grants:
  assumes "map_of (stored_users fs g) u = None"
    and "guild_multiplier (fs g) = 1.0"
  shows "snd (add_user_xp fs g u 149)
           = \<lparr>level = 1, xp = 149, total_xp = 149, leveled_up = False\<rparr>
       \<and> snd (add_user_xp fs g u 150)
           = \<lparr>level = 2, xp = 0, total_xp = 150, leveled_up = True\<rparr>
       \<and> snd (add_user_xp fs g u 450)
           = \<lparr>level = 3, xp = 0, total_xp = 450, leveled_up = True\<rparr>
       \<and> snd (get_user_level_data (fst (add_user_xp fs g u 149)) g u)
           = [(''level'', 1), (''xp'', 149), (''total_xp'', 149)]
       \<and> snd (get_user_level_data (fst (add_user_xp fs g u 150)) g u)
           = [(''level'', 2), (''xp'', 0), (''total_xp'', 150)]
       \<and> snd (get_user_level_data (fst (add_user_xp fs g u 450)) g u)
           = [(''level'', 3), (''xp'', 0), (''total_xp'', 450)]"
proof -
  have r1: "snd (add_user_xp fs g u 149)
           = \<lparr>level = 1, xp = 149, total_xp = 149, leveled_up = False\<rparr>"
    using assms
    by (simp add: add_user_xp_snd fresh_lookup default_fields xp_gained_one loop_149)
  have r2: "snd (add_user_xp fs g u 150)
           = \<lparr>level = 2, xp = 0, total_xp = 150, leveled_up = True\<rparr>"
    using assms
    by (simp add: add_user_xp_snd fresh_lookup default_fields xp_gained_one loop_150)
  have r3: "snd (add_user_xp fs g u 450)
           = \<lparr>level = 3, xp = 0, total_xp = 450, leveled_up = True\<rparr>"
    using assms
    by (simp add: add_user_xp_snd fresh_lookup default_fields xp_gained_one loop_450)
  have s: "snd (get_user_level_data (fst (add_user_xp fs g u a)) g u) =
      [(''level'', level (snd (add_user_xp fs g u a))),
       (''xp'', xp (snd (add_user_xp fs g u a))),
       (''total_xp'', total_xp (snd (add_user_xp fs g u a)))]" for a
    using assms(1)
    by (simp add: stored_after_add_user_xp fresh_lookup Let_def,
        simp add: default_user_data_def)
  show ?thesis
    by (simp add: s r1 r2 r3)
qed

theorem fresh_user_grants_witness:
  "map_of (stored_users fs0 1) 2 = None \<and> guild_multiplier (fs0 1) = 1.0
   \<and> snd (add_user_xp fs0 1 2 450)
        = \<lparr>level = 3, xp = 0, total_xp = 450, leveled_up = True\<rparr>"
  using fresh_user_grants [of fs0 1 2]
  by (simp add: fs0_def DEFAULT_CONFIG_def stored_users_def guild_multiplier_def)












lemma stored_total_step:
  "dict_get (snd (get_user_level_data (fst (add_user_xp fs g u a)) g u)) ''total_xp'' 0
     = dict_get (snd (get_user_level_data fs g u)) ''total_xp'' 0
       + xp_gained a (guild_multiplier (fs g))"
  by (simp only: stored_fields_after_add_user_xp add_user_xp_total)








lemma on_message_enabled_state:
  assumes "guild msg = Some g" and "\<not> author_bot msg" and "5 \<le> length (content msg)"
    and "case cooldowns cog (g, author_id msg) of
           None \<Rightarrow> True | Some last_time \<Rightarrow> 60 \<le> t - last_time"
    and "enabled (snd (get_leveling_config (data cog) g))"
  shows "fst (on_message cog msg t b) =
           \<lparr>data = fst (add_user_xp (fst (get_level_roles (fst (get_leveling_config (data cog) g)) g))
                          g (author_id msg) (xp_per_message + b)),
            cooldowns = (cooldowns cog)((g, author_id msg) \<mapsto> t)\<rparr>"
    and "fst (snd (on_message cog msg t b)) =
           Some (snd (add_user_xp (fst (get_level_roles (fst (get_leveling_config (data cog) g)) g))
                          g (author_id msg) (xp_per_message + b)))"
  by (simp_all add: on_message_enabled [OF assms] Let_def)

lemma config_after_award:
  "snd (get_leveling_config
      (fst (add_user_xp (fst (get_level_roles (fst (get_leveling_config fs g)) g)) g u a)) g')
   = snd (get_leveling_config fs g')"
  by (simp only: config_after_add_user_xp config_after_get_level_roles
      config_after_get_leveling_config)

text \<open>
  Claim C5. For a message that passes the first checks (guild, not a bot, at least 5
  characters) in a guild with leveling enabled, the handler awards XP if and only if no
  cooldown timestamp is recorded for the (guild, user) pair or \<open>now - last \<ge> 60\<close>. Hence, when
  a message is awarded at time \<open>now\<close>, a second such message of the same user less than 60
  seconds later is not awarded and changes nothing, and a later one at least 60 seconds
  (in particular 61 seconds) after the awarded one is awarded again.
\<close>

theorem cooldown_eligibility:
  assumes q: "guild msg = Some g" "\<not> author_bot msg" "5 \<le> length (content msg)"
    and en: "enabled (snd (get_leveling_config (data cog) g))"
  shows "((fst (snd (on_message cog msg now bonus)) \<noteq> None)
          = (case cooldowns cog (g, author_id msg) of
               None \<Rightarrow> True | Some last_time \<Rightarrow> 60 \<le> now - last_time))
       \<and> ((case cooldowns cog (g, author_id msg) of
               None \<Rightarrow> True | Some last_time \<Rightarrow> 60 \<le> now - last_time) \<longrightarrow>
            guild msg2 = Some g \<and> author_id msg2 = author_id msg \<and> \<not> author_bot msg2
              \<and> 5 \<le> length (content msg2) \<and> t2 - now < 60 \<longrightarrow>
            guild msg3 = Some g \<and> author_id msg3 = author_id msg \<and> \<not> author_bot msg3
              \<and> 5 \<le> length (content msg3) \<and> 60 \<le> t3 - now \<longrightarrow>
            (let r1 = on_message cog msg now bonus;
                 r2 = on_message (fst r1) msg2 t2 bonus2;
                 r3 = on_message (fst r2) msg3 t3 bonus3
             in fst (snd r1) \<noteq> None \<and> r2 = (fst r1, None, []) \<and> fst (snd r3) \<noteq> None))"
proof (intro conjI impI)
  show "(fst (snd (on_message cog msg now bonus)) \<noteq> None)
          = (case cooldowns cog (g, author_id msg) of
               None \<Rightarrow> True | Some last_time \<Rightarrow> 60 \<le> now - last_time)"
  proof (cases "case cooldowns cog (g, author_id msg) of
               None \<Rightarrow> True | Some last_time \<Rightarrow> 60 \<le> now - last_time")
    case True
    then show ?thesis
      by (simp add: on_message_enabled_state(2) [OF q True en])
  next
    case False
    then obtain last_time where l: "cooldowns cog (g, author_id msg) = Some last_time"
      and lt: "now - last_time < 60"
      by (auto split: option.splits)
    show ?thesis
      using False by (simp add: on_message_cooldown [OF q l lt])
  qed
next
  assume el: "case cooldowns cog (g, author_id msg) of
               None \<Rightarrow> True | Some last_time \<Rightarrow> 60 \<le> now - last_time"
    and m2: "guild msg2 = Some g \<and> author_id msg2 = author_id msg \<and> \<not> author_bot msg2
              \<and> 5 \<le> length (content msg2) \<and> t2 - now < 60"
    and m3: "guild msg3 = Some g \<and> author_id msg3 = author_id msg \<and> \<not> author_bot msg3
              \<and> 5 \<le> length (content msg3) \<and> 60 \<le> t3 - now"
  let ?r1 = "on_message cog msg now bonus"
  let ?cog1 = "fst ?r1"
  note st = on_message_enabled_state [OF q el en, of bonus]
  have a1: "fst (snd ?r1) \<noteq> None"
    by (simp add: st(2))
  have cd: "cooldowns ?cog1 (g, author_id msg) = Some now"
    by (simp add: st(1))
  have r2: "on_message ?cog1 msg2 t2 bonus2 = (?cog1, None, [])"
    using m2 cd by (intro on_message_cooldown [where g = g and last_time = now]) simp_all
  have en1: "enabled (snd (get_leveling_config (data ?cog1) g))"
    using en by (simp add: st(1) config_after_award)
  have el3: "case cooldowns ?cog1 (g, author_id msg3) of
               None \<Rightarrow> True | Some last_time \<Rightarrow> 60 \<le> t3 - last_time"
    using m3 by (simp add: cd)
  have a3: "fst (snd (on_message ?cog1 msg3 t3 bonus3)) \<noteq> None"
    using m3 by (simp add: on_message_enabled_state(2) [OF _ _ _ el3 en1])
  show "let r1 = on_message cog msg now bonus;
            r2 = on_message (fst r1) msg2 t2 bonus2;
            r3 = on_message (fst r2) msg3 t3 bonus3
        in fst (snd r1) \<noteq> None \<and> r2 = (fst r1, None, []) \<and> fst (snd r3) \<noteq> None"
    using a1 a3 by (simp add: Let_def r2)
qed


theorem cooldown_eligibility_witness:
  "guild msg_hello = Some 1 \<and> \<not> author_bot msg_hello \<and> 5 \<le> length (content msg_hello)
   \<and> enabled (snd (get_leveling_config (data cog15) 1))
   \<and> (let r1 = on_message cog15 msg_hello 0 0;
            r2 = on_message (fst r1) msg_hello 30 5;
            r3 = on_message (fst r2) msg_hello 61 10
        in fst (snd r1) \<noteq> None \<and> r2 = (fst r1, None, []) \<and> fst (snd r3) \<noteq> None)"
proof -
  have q1: "guild msg_hello = Some 1" and q2: "\<not> author_bot msg_hello"
    and q3: "5 \<le> length (content msg_hello)"
    by (simp_all add: msg_hello_def)
  have en: "enabled (snd (get_leveling_config (data cog15) 1))"
    by (simp add: cog15_def fs15_def get_leveling_config_snd)
  have el: "case cooldowns cog15 (1, author_id msg_hello) of
              None \<Rightarrow> True | Some last_time \<Rightarrow> 60 \<le> 0 - last_time"
    by (simp add: cog15_def)
  note th = cooldown_eligibility [where cog = cog15 and msg = msg_hello and g = 1 and now = 0
      and bonus = 0 and ?msg2.0 = msg_hello and ?t2.0 = 30 and ?bonus2.0 = 5
      and ?msg3.0 = msg_hello and ?t3.0 = 61 and ?bonus3.0 = 10, OF q1 q2 q3 en]
  have "let r1 = on_message cog15 msg_hello 0 0;
            r2 = on_message (fst r1) msg_hello 30 5;
            r3 = on_message (fst r2) msg_hello 61 10
        in fst (snd r1) \<noteq> None \<and> r2 = (fst r1, None, []) \<and> fst (snd r3) \<noteq> None"
    using th [THEN conjunct2] el q1 q2 q3 by simp
  with q1 q2 q3 en show ?thesis by (simp only: simp_thms)
qed

lemma level_config_command_enable:
  "level_config_command fs g (Some True) None None =
     save_leveling_config (fst (get_leveling_config fs g)) g
       ((snd (get_leveling_config fs g))\<lparr>enabled := True\<rparr>)"
  by (simp add: level_config_command_def case_prod_beta Let_def)

lemma save_leveling_config_fst:
  "save_leveling_config fs g lc = fs(g := (fs g)\<lparr>leveling := Some lc\<rparr>)"
  by (simp add: save_leveling_config_def load_guild_config_def save_guild_config_def Let_def)

lemma config_after_enable:
  "snd (get_leveling_config (level_config_command fs g (Some True) None None) g)
     = (snd (get_leveling_config fs g))\<lparr>enabled := True\<rparr>"
  by (simp add: level_config_command_enable save_leveling_config_fst
      get_leveling_config_snd [of "_(_ := _)"])

lemma on_message_disabled_frame:
  assumes g: "guild msg = Some g"
    and dis: "\<not> enabled (snd (get_leveling_config (data cog) g))"
  shows "fst (snd (on_message cog msg t b)) = None"
    and "snd (snd (on_message cog msg t b)) = []"
    and "stored_users (data (fst (on_message cog msg t b))) g' = stored_users (data cog) g'"
proof -
  let ?el = "case cooldowns cog (g, author_id msg) of
               None \<Rightarrow> True | Some last_time \<Rightarrow> 60 \<le> t - last_time"
  consider (bot) "author_bot msg"
    | (short) "\<not> author_bot msg" "length (content msg) < 5"
    | (cool) "\<not> author_bot msg" "5 \<le> length (content msg)" "\<not> ?el"
    | (go) "\<not> author_bot msg" "5 \<le> length (content msg)" "?el"
    by linarith
  then have "fst (snd (on_message cog msg t b)) = None
      \<and> snd (snd (on_message cog msg t b)) = []
      \<and> stored_users (data (fst (on_message cog msg t b))) g' = stored_users (data cog) g'"
  proof cases
    case bot
    with g show ?thesis by (simp add: on_message_def)
  next
    case short
    with g show ?thesis by (simp add: on_message_def)
  next
    case cool
    then obtain last_time where l: "cooldowns cog (g, author_id msg) = Some last_time"
      and lt: "t - last_time < 60"
      by (auto split: option.splits)
    show ?thesis
      by (simp add: on_message_cooldown [OF g cool(1,2) l lt])
  next
    case go
    show ?thesis
      by (simp add: on_message_disabled [OF g go dis] stored_users_get_leveling_config)
  qed
  then show "fst (snd (on_message cog msg t b)) = None"
    and "snd (snd (on_message cog msg t b)) = []"
    and "stored_users (data (fst (on_message cog msg t b))) g' = stored_users (data cog) g'"
    by simp_all
qed

text \<open>
  Claim C10. The handler records the cooldown timestamp before it looks at the enabled
  flag: an eligible message sent while leveling is disabled awards nothing and leaves every
  user's level record unchanged, but the cooldown entry of the (guild, user) pair becomes
  \<open>now\<close>; when leveling is then enabled (\<open>/levelconfig enable:True\<close>), a message of the same
  user less than 60 seconds after the first one is still refused by the cooldown check.
\<close>

theorem cooldown_recorded_while_disabled:
  assumes q: "guild msg = Some g" "\<not> author_bot msg" "5 \<le> length (content msg)"
    and el: "case cooldowns cog (g, author_id msg) of
               None \<Rightarrow> True | Some last_time \<Rightarrow> 60 \<le> now - last_time"
    and dis: "\<not> enabled (snd (get_leveling_config (data cog) g))"
  shows "let r1 = on_message cog msg now bonus;
             cog1 = fst r1;
             cog2 = cog1\<lparr>data := level_config_command (data cog1) g (Some True) None None\<rparr>
         in fst (snd r1) = None
          \<and> cooldowns cog1 (g, author_id msg) = Some now
          \<and> stored_users (data cog1) g' = stored_users (data cog) g'
          \<and> snd (get_user_level_data (data cog1) g' u)
              = snd (get_user_level_data (data cog) g' u)
          \<and> enabled (snd (get_leveling_config (data cog2) g))
          \<and> (guild msg2 = Some g \<and> author_id msg2 = author_id msg \<and> \<not> author_bot msg2
               \<and> 5 \<le> length (content msg2) \<and> t2 - now < 60 \<longrightarrow>
             on_message cog2 msg2 t2 bonus2 = (cog2, None, []))"
proof -
  let ?cog1 = "fst (on_message cog msg now bonus)"
  let ?cog2 = "?cog1\<lparr>data := level_config_command (data ?cog1) g (Some True) None None\<rparr>"
  note r1 = on_message_disabled [OF q el dis, of bonus]
  have a: "fst (snd (on_message cog msg now bonus)) = None"
    by (simp add: r1)
  have c: "cooldowns ?cog1 (g, author_id msg) = Some now"
    by (simp add: r1)
  have s: "stored_users (data ?cog1) g' = stored_users (data cog) g'"
    by (simp add: r1 stored_users_get_leveling_config)
  have d: "snd (get_user_level_data (data ?cog1) g' u)
              = snd (get_user_level_data (data cog) g' u)"
    by (simp only: get_user_level_data_snd s)
  have e: "enabled (snd (get_leveling_config (data ?cog2) g))"
    by (simp add: config_after_enable)
  have b: "on_message ?cog2 msg2 t2 bonus2 = (?cog2, None, [])"
    if m2: "guild msg2 = Some g \<and> author_id msg2 = author_id msg \<and> \<not> author_bot msg2
               \<and> 5 \<le> length (content msg2) \<and> t2 - now < 60"
  proof -
    have "cooldowns ?cog2 (g, author_id msg2) = Some now"
      using m2 c by simp
    with m2 show ?thesis
      by (intro on_message_cooldown [where g = g and last_time = now]) simp_all
  qed
  show ?thesis
    using a c s d e b by (simp add: Let_def)
qed


theorem cooldown_recorded_while_disabled_witness:
  "guild msg_hello = Some 1 \<and> \<not> author_bot msg_hello \<and> 5 \<le> length (content msg_hello)
   \<and> \<not> enabled (snd (get_leveling_config (data cog0) 1))
   \<and> (let r1 = on_message cog0 msg_hello 0 0;
            cog1 = fst r1;
            cog2 = cog1\<lparr>data := level_config_command (data cog1) 1 (Some True) None None\<rparr>
        in fst (snd r1) = None
         \<and> cooldowns cog1 (1, 2) = Some 0
         \<and> stored_users (data cog1) 1 = []
         \<and> enabled (snd (get_leveling_config (data cog2) 1))
         \<and> on_message cog2 msg_hello 59 0 = (cog2, None, []))"
proof -
  have q1: "guild msg_hello = Some 1" and q2: "\<not> author_bot msg_hello"
    and q3: "5 \<le> length (content msg_hello)"
    by (simp_all add: msg_hello_def)
  have dis: "\<not> enabled (snd (get_leveling_config (data cog0) 1))"
    by (simp add: cog0_def fs0_def DEFAULT_CONFIG_def get_leveling_config_snd default_leveling_def)
  have el: "case cooldowns cog0 (1, author_id msg_hello) of
              None \<Rightarrow> True | Some last_time \<Rightarrow> 60 \<le> 0 - last_time"
    by (simp add: cog0_def)
  have a: "author_id msg_hello = 2"
    by (simp add: msg_hello_def)
  have s0: "stored_users (data cog0) 1 = []"
    by (simp add: cog0_def fs0_def DEFAULT_CONFIG_def stored_users_def)
  note th = cooldown_recorded_while_disabled [where cog = cog0 and msg = msg_hello and g = 1
      and now = 0 and bonus = 0 and g' = 1 and u = 2 and ?msg2.0 = msg_hello and ?t2.0 = 59
      and ?bonus2.0 = 0, OF q1 q2 q3 el dis]
  show ?thesis
    using th q1 q2 q3 dis by (simp add: Let_def a s0)
qed

lemma add_xp_command_valid:
  "0 < amount \<Longrightarrow> amount \<le> 10000 \<Longrightarrow>
   add_xp_command cog g u amount =
     (cog\<lparr>data := fst (add_user_xp (data cog) g u amount)\<rparr>,
      XpAdded (snd (add_user_xp (data cog) g u amount)))"
  by (simp add: add_xp_command_def case_prod_beta)

text \<open>
  Claim C7. When leveling is disabled for the guild, a message awards nothing and leaves
  every stored level record unchanged, whereas \<open>/addxp\<close> with a valid amount
  (\<open>0 < amount \<le> 10000\<close>) still stores the record computed by \<open>add_user_xp\<close>: \<open>total_xp\<close>
  grows by \<open>int(amount * multiplier)\<close>, so the record changes whenever the multiplier is at
  least 1 (the default).
\<close>

theorem disabled_flag_blocks_messages_only:
  assumes g: "guild msg = Some g"
    and dis: "\<not> enabled (snd (get_leveling_config (data cog) g))"
  shows "fst (snd (on_message cog msg now bonus)) = None
       \<and> stored_users (data (fst (on_message cog msg now bonus))) g' = stored_users (data cog) g'
       \<and> snd (get_user_level_data (data (fst (on_message cog msg now bonus))) g' u)
           = snd (get_user_level_data (data cog) g' u)
       \<and> (0 < amount \<and> amount \<le> 10000 \<longrightarrow>
            (let r = add_xp_command cog g u amount;
                 res = snd (add_user_xp (data cog) g u amount);
                 old = snd (get_user_level_data (data cog) g u);
                 new = snd (get_user_level_data (data (fst r)) g u)
             in snd r = XpAdded res
              \<and> dict_get new ''level'' 1 = level res
              \<and> dict_get new ''xp'' 0 = xp res
              \<and> dict_get new ''total_xp'' 0 = total_xp res
              \<and> total_xp res = dict_get old ''total_xp'' 0
                   + xp_gained amount (guild_multiplier (data cog g))
              \<and> (1 \<le> guild_multiplier (data cog g) \<longrightarrow>
                   dict_get old ''total_xp'' 0 < dict_get new ''total_xp'' 0 \<and> new \<noteq> old)))"
proof (intro conjI impI)
  show "fst (snd (on_message cog msg now bonus)) = None"
    by (rule on_message_disabled_frame(1) [OF g dis])
  show s: "stored_users (data (fst (on_message cog msg now bonus))) g' = stored_users (data cog) g'"
    by (rule on_message_disabled_frame(3) [OF g dis])
  show "snd (get_user_level_data (data (fst (on_message cog msg now bonus))) g' u)
           = snd (get_user_level_data (data cog) g' u)"
    by (simp only: get_user_level_data_snd s)
next
  assume v: "0 < amount \<and> amount \<le> 10000"
  let ?res = "snd (add_user_xp (data cog) g u amount)"
  let ?old = "snd (get_user_level_data (data cog) g u)"
  let ?new = "snd (get_user_level_data (fst (add_user_xp (data cog) g u amount)) g u)"
  have r: "add_xp_command cog g u amount =
     (cog\<lparr>data := fst (add_user_xp (data cog) g u amount)\<rparr>, XpAdded ?res)"
    using v by (simp add: add_xp_command_valid)
  have t: "total_xp ?res = dict_get ?old ''total_xp'' 0
                   + xp_gained amount (guild_multiplier (data cog g))"
    by (rule add_user_xp_total)
  have up: "dict_get ?old ''total_xp'' 0 < dict_get ?new ''total_xp'' 0 \<and> ?new \<noteq> ?old"
    if m: "1 \<le> guild_multiplier (data cog g)"
  proof -
    have "amount \<le> xp_gained amount (guild_multiplier (data cog g))"
      using v m by (intro xp_gained_ge_amount) simp_all
    with v have lt: "dict_get ?old ''total_xp'' 0 < dict_get ?new ''total_xp'' 0"
      by (simp only: stored_total_step) simp
    then have "?new \<noteq> ?old" by auto
    with lt show ?thesis by simp
  qed
  show "let r = add_xp_command cog g u amount;
            res = snd (add_user_xp (data cog) g u amount);
            old = snd (get_user_level_data (data cog) g u);
            new = snd (get_user_level_data (data (fst r)) g u)
        in snd r = XpAdded res
         \<and> dict_get new ''level'' 1 = level res
         \<and> dict_get new ''xp'' 0 = xp res
         \<and> dict_get new ''total_xp'' 0 = total_xp res
         \<and> total_xp res = dict_get old ''total_xp'' 0
              + xp_gained amount (guild_multiplier (data cog g))
         \<and> (1 \<le> guild_multiplier (data cog g) \<longrightarrow>
              dict_get old ''total_xp'' 0 < dict_get new ''total_xp'' 0 \<and> new \<noteq> old)"
    using t up by (simp add: Let_def r stored_fields_after_add_user_xp)
qed

theorem disabled_flag_blocks_messages_only_witness:
  "guild msg_hello = Some 1 \<and> \<not> enabled (snd (get_leveling_config (data cog0) 1))
   \<and> fst (snd (on_message cog0 msg_hello 0 10)) = None
   \<and> stored_users (data (fst (on_message cog0 msg_hello 0 10))) 1 = []
   \<and> (0::int) < 150 \<and> (150::int) \<le> 10000
   \<and> snd (add_xp_command cog0 1 2 150)
        = XpAdded \<lparr>level = 2, xp = 0, total_xp = 150, leveled_up = True\<rparr>
   \<and> snd (get_user_level_data (data (fst (add_xp_command cog0 1 2 150))) 1 2)
        \<noteq> snd (get_user_level_data (data cog0) 1 2)"
proof -
  have q1: "guild msg_hello = Some 1"
    by (simp add: msg_hello_def)
  have dis: "\<not> enabled (snd (get_leveling_config (data cog0) 1))"
    by (simp add: cog0_def fs0_def DEFAULT_CONFIG_def get_leveling_config_snd default_leveling_def)
  have s0: "stored_users (data cog0) 1 = []"
    by (simp add: cog0_def fs0_def DEFAULT_CONFIG_def stored_users_def)
  have m: "guild_multiplier (data cog0 1) = 1"
    by (simp add: cog0_def fs0_def DEFAULT_CONFIG_def guild_multiplier_def)
  have fresh: "map_of (stored_users (data cog0) 1) 2 = None"
    by (simp add: s0)
  have res: "snd (add_user_xp (data cog0) 1 2 150)
      = \<lparr>level = 2, xp = 0, total_xp = 150, leveled_up = True\<rparr>"
    by (simp add: add_user_xp_snd fresh_lookup [OF fresh] default_fields m xp_gained_one loop_150)
  note th = disabled_flag_blocks_messages_only [where cog = cog0 and msg = msg_hello and g = 1
      and now = 0 and bonus = 10 and g' = 1 and u = 2 and amount = 150, OF q1 dis]
  show ?thesis
    using th q1 dis by (simp add: Let_def s0 m res)
qed





lemma get_level_leaderboard_eq:
  "get_level_leaderboard fs g =
     sort_key (\<lambda>x. - dict_get (snd x) ''total_xp'' 0) (stored_users fs g)"
  by (simp add: get_level_leaderboard_def stored_users_def load_guild_config_def
      split: option.splits)

lemma sorted_neg_rev:
  fixes xs :: "'a list" and f :: "'a \<Rightarrow> int"
  shows "sorted (map (\<lambda>x. - f x) xs) \<Longrightarrow> sorted (rev (map f xs))"
  by (simp add: sorted_wrt_rev sorted_wrt_map)

lemma user_position_takeWhile:
  "user_position lb target i =
     (if target \<in> set (map fst lb)
      then Some (i + Suc (length (takeWhile (\<lambda>x. fst x \<noteq> target) lb)))
      else None)"
proof (induction lb arbitrary: i)
  case Nil
  show ?case by simp
next
  case (Cons p lb)
  obtain v d where p: "p = (v, d)" by (cases p)
  show ?case
  proof (cases "v = target")
    case True
    then show ?thesis by (simp add: p)
  next
    case False
    then show ?thesis by (simp add: p Cons.IH)
  qed
qed

text \<open>
  Claim C8. \<open>get_level_leaderboard\<close> returns the stored user records of the guild (the same
  entries) sorted by \<open>total_xp\<close> descending, entries with equal \<open>total_xp\<close> in their stored
  (insertion) order; a user's rank, as \<open>rank_command\<close> computes it, is the 1-based index of
  the first entry with the user's id; three users stored with \<open>total_xp\<close> 500, 1500, 1000 come
  out in the order 1500, 1000, 500.
\<close>

theorem leaderboard_sorted_stable:
  "sorted (rev (map (\<lambda>x. dict_get (snd x) ''total_xp'' 0) (get_level_leaderboard fs g)))
   \<and> mset (get_level_leaderboard fs g) = mset (stored_users fs g)
   \<and> filter (\<lambda>x. dict_get (snd x) ''total_xp'' 0 = k) (get_level_leaderboard fs g)
       = filter (\<lambda>x. dict_get (snd x) ''total_xp'' 0 = k) (stored_users fs g)
   \<and> user_position (get_level_leaderboard fs g) target 0
       = (if target \<in> set (map fst (get_level_leaderboard fs g))
          then Some (Suc (length (takeWhile (\<lambda>x. fst x \<noteq> target)
                                   (get_level_leaderboard fs g))))
          else None)
   \<and> (stored_users fs g = [ua, ub, uc]
        \<and> dict_get (snd ua) ''total_xp'' 0 = 500
        \<and> dict_get (snd ub) ''total_xp'' 0 = 1500
        \<and> dict_get (snd uc) ''total_xp'' 0 = 1000
       \<longrightarrow> get_level_leaderboard fs g = [ub, uc, ua])"
proof (intro conjI impI)
  let ?key = "\<lambda>x :: int \<times> user_data. dict_get (snd x) ''total_xp'' 0"
  have "sorted (map (\<lambda>x. - ?key x) (get_level_leaderboard fs g))"
    unfolding get_level_leaderboard_eq by (rule sorted_sort_key)
  then show "sorted (rev (map ?key (get_level_leaderboard fs g)))"
    by (rule sorted_neg_rev)
  show "mset (get_level_leaderboard fs g) = mset (stored_users fs g)"
    unfolding get_level_leaderboard_eq by (rule mset_sort)
  have "filter (\<lambda>x. - ?key x = - k) (get_level_leaderboard fs g)
       = filter (\<lambda>x. - ?key x = - k) (stored_users fs g)"
    unfolding get_level_leaderboard_eq by (rule sort_key_stable)
  then show "filter (\<lambda>x. ?key x = k) (get_level_leaderboard fs g)
       = filter (\<lambda>x. ?key x = k) (stored_users fs g)"
    by simp
  show "user_position (get_level_leaderboard fs g) target 0
       = (if target \<in> set (map fst (get_level_leaderboard fs g))
          then Some (Suc (length (takeWhile (\<lambda>x. fst x \<noteq> target)
                                   (get_level_leaderboard fs g))))
          else None)"
    by (simp add: user_position_takeWhile)
next
  assume "stored_users fs g = [ua, ub, uc]
        \<and> dict_get (snd ua) ''total_xp'' 0 = 500
        \<and> dict_get (snd ub) ''total_xp'' 0 = 1500
        \<and> dict_get (snd uc) ''total_xp'' 0 = 1000"
  then show "get_level_leaderboard fs g = [ub, uc, ua]"
    by (simp add: get_level_leaderboard_eq)
qed

theorem leaderboard_sorted_stable_witness:
  "stored_users fs_board 1 =
     [(10, [(''level'', 3), (''xp'', 50), (''total_xp'', 500)]),
      (11, [(''level'', 5), (''xp'', 0), (''total_xp'', 1500)]),
      (12, [(''level'', 4), (''xp'', 100), (''total_xp'', 1000)])]
   \<and> get_level_leaderboard fs_board 1 =
     [(11, [(''level'', 5), (''xp'', 0), (''total_xp'', 1500)]),
      (12, [(''level'', 4), (''xp'', 100), (''total_xp'', 1000)]),
      (10, [(''level'', 3), (''xp'', 50), (''total_xp'', 500)])]
   \<and> user_position (get_level_leaderboard fs_board 1) 12 0 = Some 2"
proof -
  have s: "stored_users fs_board 1 =
     [(10, [(''level'', 3), (''xp'', 50), (''total_xp'', 500)]),
      (11, [(''level'', 5), (''xp'', 0), (''total_xp'', 1500)]),
      (12, [(''level'', 4), (''xp'', 100), (''total_xp'', 1000)])]"
    by (simp add: fs_board_def stored_users_def)
  note th = leaderboard_sorted_stable [where fs = fs_board and g = 1 and target = 12
      and ua = "(10, [(''level'', 3), (''xp'', 50), (''total_xp'', 500)])"
      and ub = "(11, [(''level'', 5), (''xp'', 0), (''total_xp'', 1500)])"
      and uc = "(12, [(''level'', 4), (''xp'', 100), (''total_xp'', 1000)])"]
  have lb: "get_level_leaderboard fs_board 1 =
     [(11, [(''level'', 5), (''xp'', 0), (''total_xp'', 1500)]),
      (12, [(''level'', 4), (''xp'', 100), (''total_xp'', 1000)]),
      (10, [(''level'', 3), (''xp'', 50), (''total_xp'', 500)])]"
    using th s by (simp add: dict_get_def)
  have pos: "user_position (get_level_leaderboard fs_board 1) 12 0 = Some 2"
    using th unfolding lb by simp
  show ?thesis
    using s lb pos by (simp only: simp_thms)
qed


lemma stored_users_get_user_level_data:
  "stored_users (fst (get_user_level_data fs g u)) g' = stored_users fs g'"
proof (cases "user_levels (fs g)")
  case None
  then show ?thesis
    by (simp add: get_user_level_data_def stored_users_def load_guild_config_def
        save_guild_config_def Let_def)
next
  case (Some ul)
  then show ?thesis
    by (cases "ul g")
       (simp_all add: get_user_level_data_def stored_users_def load_guild_config_def
        save_guild_config_def Let_def)
qed

lemma stored_users_save_leveling_config:
  "stored_users (save_leveling_config fs g lc) g' = stored_users fs g'"
  by (simp add: save_leveling_config_fst stored_users_def)

lemma stored_users_set_level_role:
  "stored_users (set_level_role fs g lvl role_id) g' = stored_users fs g'"
  by (simp add: set_level_role_def load_guild_config_def save_guild_config_def
      stored_users_def Let_def)

lemma stored_users_remove_level_role:
  "stored_users (fst (remove_level_role fs g lvl)) g' = stored_users fs g'"
proof (cases "level_roles (fs g)")
  case None
  then show ?thesis
    by (simp add: remove_level_role_def load_guild_config_def)
next
  case (Some lr)
  then show ?thesis
    by (cases "lr lvl")
       (simp_all add: remove_level_role_def load_guild_config_def save_guild_config_def
        stored_users_def)
qed

lemma stored_users_add_user_xp:
  "stored_users (fst (add_user_xp fs g u a)) g' =
     (if g' = g
      then dict_set (stored_users fs g) u
             (dict_set (dict_set (dict_set (dict_get (stored_users fs g) u default_user_data)
                ''level'' (level (snd (add_user_xp fs g u a))))
                ''xp'' (xp (snd (add_user_xp fs g u a))))
                ''total_xp'' (total_xp (snd (add_user_xp fs g u a))))
      else stored_users fs g')"
  by (simp add: add_user_xp_stored Let_def stored_users_add_user_xp_other)

lemma reachable_records_nonempty:
  assumes "reachable fs"
  shows "map_of (stored_users fs g) u = Some d \<Longrightarrow> d \<noteq> []"
  using assms
proof (induction arbitrary: g u d rule: reachable.induct)
  case initial
  then show ?case
    by (simp add: fs0_def DEFAULT_CONFIG_def stored_users_def)
next
  case (leveling_config fs g0)
  then show ?case by (simp add: stored_users_get_leveling_config)
next
  case (save_leveling fs g0 lc)
  then show ?case by (simp add: stored_users_save_leveling_config)
next
  case (roles fs g0)
  then show ?case by (simp add: stored_users_get_level_roles)
next
  case (set_role fs g0 lvl role_id)
  then show ?case by (simp add: stored_users_set_level_role)
next
  case (remove_role fs g0 lvl)
  then show ?case by (simp add: stored_users_remove_level_role)
next
  case (level_data fs g0 u0)
  then show ?case by (simp add: stored_users_get_user_level_data)
next
  case (add_xp fs g0 u0 a)
  show ?case
  proof (cases "g = g0 \<and> u = u0")
    case True
    with add_xp.prems show ?thesis
      by (auto simp add: stored_users_add_user_xp map_of_dict_set dict_set_nonempty)
  next
    case False
    with add_xp.prems have "map_of (stored_users fs g) u = Some d"
      by (auto simp add: stored_users_add_user_xp map_of_dict_set split: if_splits)
    then show ?thesis by (rule add_xp.IH)
  qed
qed

text \<open>
  Claim C9. On every document the leveling code can produce, \<open>get_user_level_data\<close> returns
  a non-empty record, the default \<open>{level: 1, xp: 0, total_xp: 0}\<close> when the user has no
  stored record; so \<open>rank_command\<close> never takes the branch that replies that the user has not
  earned any XP yet.
\<close>

theorem get_user_level_data_nonempty:
  assumes "reachable fs"
  shows "snd (get_user_level_data fs g u) \<noteq> []
       \<and> (map_of (stored_users fs g) u = None \<longrightarrow>
            snd (get_user_level_data fs g u)
              = [(''level'', 1), (''xp'', 0), (''total_xp'', 0)])
       \<and> snd (rank_command fs g u) \<noteq> NoXpYet"
proof -
  have ne: "snd (get_user_level_data fs g u) \<noteq> []"
  proof (cases "map_of (stored_users fs g) u")
    case None
    then show ?thesis
      by (simp add: get_user_level_data_snd dict_get_def default_user_data_def)
  next
    case (Some d)
    with reachable_records_nonempty [OF assms Some] show ?thesis
      by (simp add: get_user_level_data_snd dict_get_def)
  qed
  have dflt: "snd (get_user_level_data fs g u) = [(''level'', 1), (''xp'', 0), (''total_xp'', 0)]"
    if "map_of (stored_users fs g) u = None"
    using that by (simp add: get_user_level_data_snd dict_get_def default_user_data_def)
  have rank: "snd (rank_command fs g u) \<noteq> NoXpYet"
    using ne by (simp add: rank_command_def case_prod_beta Let_def)
  show ?thesis
    using ne dflt rank by simp
qed

theorem get_user_level_data_nonempty_witness:
  "reachable (fst (add_user_xp fs0 1 2 450))
   \<and> snd (get_user_level_data (fst (add_user_xp fs0 1 2 450)) 1 2)
       = [(''level'', 3), (''xp'', 0), (''total_xp'', 450)]
   \<and> snd (get_user_level_data (fst (add_user_xp fs0 1 2 450)) 1 7)
       = [(''level'', 1), (''xp'', 0), (''total_xp'', 0)]
   \<and> snd (rank_command (fst (add_user_xp fs0 1 2 450)) 1 7) \<noteq> NoXpYet
   \<and> snd (rank_command (fst (add_user_xp fs0 1 2 450)) 1 2) \<noteq> NoXpYet"
proof -
  let ?fs = "fst (add_user_xp fs0 1 2 450)"
  have r: "reachable ?fs"
    by (intro reachable.add_xp reachable.initial)
  have s0: "stored_users fs0 1 = []"
    by (simp add: fs0_def DEFAULT_CONFIG_def stored_users_def)
  have m: "guild_multiplier (fs0 1) = 1"
    by (simp add: fs0_def DEFAULT_CONFIG_def guild_multiplier_def)
  have res: "snd (add_user_xp fs0 1 2 450)
      = \<lparr>level = 3, xp = 0, total_xp = 450, leveled_up = True\<rparr>"
    by (simp add: add_user_xp_snd s0 dict_get_def [of "[]"] default_fields m xp_gained_one loop_450)
  have two: "snd (get_user_level_data ?fs 1 2)
       = [(''level'', 3), (''xp'', 0), (''total_xp'', 450)]"
    by (simp add: stored_after_add_user_xp Let_def res s0 dict_get_def [of "[]"])
       (simp add: default_user_data_def)
  have seven: "map_of (stored_users ?fs 1) 7 = None"
    by (simp add: stored_users_add_user_xp s0)
  show ?thesis
    using r two get_user_level_data_nonempty [OF r, of 1 7]
      get_user_level_data_nonempty [OF r, of 1 2] seven
    by simp
qed

section \<open>Supporting facts\<close>

text \<open>The handlers of the cog keep the documents among those the leveling code produces.\<close>

lemma reachable_on_message:
  assumes r: "reachable (data cog)"
  shows "reachable (data (fst (on_message cog msg t b)))"
proof (cases "guild msg")
  case None
  with r show ?thesis by (simp add: on_message_def)
next
  case (Some g)
  let ?el = "case cooldowns cog (g, author_id msg) of
               None \<Rightarrow> True | Some last_time \<Rightarrow> 60 \<le> t - last_time"
  consider (bot) "author_bot msg"
    | (short) "\<not> author_bot msg" "length (content msg) < 5"
    | (cool) "\<not> author_bot msg" "5 \<le> length (content msg)" "\<not> ?el"
    | (off) "\<not> author_bot msg" "5 \<le> length (content msg)" "?el"
        "\<not> enabled (snd (get_leveling_config (data cog) g))"
    | (on) "\<not> author_bot msg" "5 \<le> length (content msg)" "?el"
        "enabled (snd (get_leveling_config (data cog) g))"
    by linarith
  then show ?thesis
  proof cases
    case bot
    with Some r show ?thesis by (simp add: on_message_def)
  next
    case short
    with Some r show ?thesis by (simp add: on_message_def)
  next
    case cool
    then obtain last_time where l: "cooldowns cog (g, author_id msg) = Some last_time"
      and lt: "t - last_time < 60"
      by (auto split: option.splits)
    show ?thesis
      using r by (simp add: on_message_cooldown [OF Some cool(1,2) l lt])
  next
    case off
    show ?thesis
      using r by (simp add: on_message_disabled [OF Some off] reachable.leveling_config)
  next
    case on
    show ?thesis
      using r
      by (simp add: on_message_enabled_state(1) [OF Some on] reachable.leveling_config
          reachable.roles reachable.add_xp)
  qed
qed

lemma reachable_add_xp_command:
  assumes r: "reachable (data cog)"
  shows "reachable (data (fst (add_xp_command cog g u amount)))"
proof (cases "0 < amount \<and> amount \<le> 10000")
  case True
  with r show ?thesis
    by (simp add: add_xp_command_valid reachable.add_xp)
next
  case False
  with r show ?thesis
    by (auto simp add: add_xp_command_def)
qed

lemma reachable_level_config_command:
  assumes r: "reachable fs"
  shows "reachable (level_config_command fs g enable level_channel multiplier)"
  using r
  by (simp add: level_config_command_def case_prod_beta Let_def reachable.leveling_config
      reachable.save_leveling)

lemma reachable_rank_command:
  assumes r: "reachable fs"
  shows "reachable (fst (rank_command fs g u))"
  using r
  by (simp add: rank_command_def case_prod_beta Let_def reachable.level_data)



section \<open>The role reward of a message-driven level-up\<close>


























text \<open>The documents of these states are among those of \<open>reachable\<close>.\<close>

lemma bot_reachable_documents:
  assumes "bot_reachable cog"
  shows "reachable (data cog)"
  using assms
proof (induction rule: bot_reachable.induct)
  case start
  show ?case by (simp add: cog0_def reachable.initial)
next
  case (message cog bonus msg t)
  then show ?case by (simp add: reachable_on_message)
next
  case (addxp cog g u amount)
  then show ?case by (simp add: reachable_add_xp_command)
qed (simp_all add: reachable.leveling_config reachable_rank_command
    reachable_level_config_command reachable.set_role reachable.roles reachable.remove_role)

end
